theory Spec2Isabelle
  imports Complex_Main "HOL-Library.Multiset"
begin

section \<open>Sensitivity sampling and federated averaging\<close>

text \<open>
  A shallow embedding of \<^verbatim>\<open>shfl/differential_privacy/sensitivity_sampler.py\<close> (class
  \<^verbatim>\<open>SensitivitySampler\<close>) and of
  \<^verbatim>\<open>shfl/federated_aggregator/fedavg_aggregator.py\<close> (class
  \<^verbatim>\<open>FedAvgAggregator\<close>).

  Conventions of the embedding.
  \<^item> Python floats and numpy's \<^verbatim>\<open>float64\<close> are real numbers: rounding, overflow and
    underflow are outside the model. Where numpy leaves the reals without raising (a
    division by \<^verbatim>\<open>0.0\<close> gives \<^verbatim>\<open>inf\<close> or \<^verbatim>\<open>nan\<close>, the square root of a negative
    number gives \<^verbatim>\<open>nan\<close>, each with a RuntimeWarning only) the model stops with the
    outcome \<open>NonFinite\<close>.
  \<^item> A Python exception is a value of the type \<open>'x error\<close>; a function that may raise
    returns \<open>'x error + 'a\<close> with \<open>Inl\<close> for the exception.
  \<^item> The query, the norm and the oracle are arbitrary objects supplied by the caller.
    Each of their methods is a function on a state \<open>'s\<close> of the world outside the
    sampler (the oracle's random generator, for instance) that returns the method's
    outcome and the next state. The state is kept when a call raises, so that a
    statement can tell how far a run went.
  \<^item> \<^verbatim>\<open>scipy.special.lambertw\<close> belongs to a library, not to the repository: the
    calibrator takes it as the parameter \<open>lambertw\<close>, of the real argument \<open>z\<close> and
    the branch index \<open>k\<close>, with a complex value.
  \<^item> numpy arrays are nested lists of reals, and the arrays that the aggregator reads
    and builds are the cells of a heap, so that a statement can tell which arrays a
    call leaves as they were.
  \<^item> A leading underscore of a Python name is dropped: \<^verbatim>\<open>_sensitivity_sampler\<close> is
    \<open>sensitivity_sampler\<close>.
\<close>

subsection \<open>Exceptions\<close>

text \<open>
  The Python exceptions the two classes can raise, \<open>Collaborator\<close> for an exception
  of the caller's own query, norm or oracle, and \<open>NonFinite\<close> as explained above.
  \<open>InvalidConfiguration\<close> is the error the specification names for rejected
  parameters; no statement of the source raises it, and it is here only so that
  statements about it can be written.
\<close>

datatype 'x error =
    TypeError
  | ZeroDivisionError
  | ValueError
  | IndexError
  | NonFinite
  | InvalidConfiguration
  | Collaborator 'x

subsection \<open>The parameter calibrator\<close>

text \<open>The dictionary \<^verbatim>\<open>{'m': m, 'gamma': gamma, 'k': k, 'rho': rho}\<close>.\<close>

record config =
  cfg_m :: int
  cfg_gamma :: real
  cfg_k :: int
  cfg_rho :: real

text \<open>
  \<^verbatim>\<open>gamma_lo = rho + np.sqrt(np.log(1 / rho) / (2 * m))\<close>, the same expression in both
  branches of the calibrator.
\<close>

definition gamma_lo :: "real \<Rightarrow> int \<Rightarrow> real" where
  "gamma_lo rho m = rho + sqrt (ln (1 / rho) / (2 * real_of_int m))"

text \<open>
  \<^verbatim>\<open>_sensitivity_sampler_config(m, gamma)\<close>. An absent argument is \<open>None\<close>.

  With \<^verbatim>\<open>m is None\<close> the first statement negates \<^verbatim>\<open>gamma\<close>, which raises TypeError
  when \<^verbatim>\<open>gamma\<close> is \<^verbatim>\<open>None\<close> too. \<^verbatim>\<open>np.ceil\<close> returns an integral float, which
  \<^verbatim>\<open>sample_sensitivity\<close> converts with \<^verbatim>\<open>int\<close>: the model keeps the integer.
  With \<^verbatim>\<open>m\<close> given, \<^verbatim>\<open>-1 / (4 * m)\<close> is a division of Python numbers and raises
  ZeroDivisionError for \<^verbatim>\<open>m = 0\<close>. The branch index passed to \<^verbatim>\<open>lambertw\<close> is the
  literal \<^verbatim>\<open>1\<close> in both branches, and \<^verbatim>\<open>np.real\<close> takes the real part of the value.
\<close>

definition sensitivity_sampler_config ::
  "(real \<Rightarrow> int \<Rightarrow> complex) \<Rightarrow> int option \<Rightarrow> real option \<Rightarrow> 'x error + config" where
  "sensitivity_sampler_config lambertw m gamma =
     (case m of
        None \<Rightarrow>
          (case gamma of
             None \<Rightarrow> Inl TypeError
           | Some g \<Rightarrow>
               let lambert_value = Re (lambertw (- g / (2 * exp (1 / 2))) 1);
                   rho = exp (lambert_value + 1 / 2)
               in if 2 * (g - rho) ^ 2 = 0 then Inl NonFinite
                  else
                    let m' = \<lceil>ln (1 / rho) / (2 * (g - rho) ^ 2)\<rceil>
                    in if m' = 0 \<or> ln (1 / rho) / (2 * real_of_int m') < 0 then Inl NonFinite
                       else Inr \<lparr>cfg_m = m', cfg_gamma = g,
                                 cfg_k = \<lceil>real_of_int m' * (1 - g + gamma_lo rho m')\<rceil>,
                                 cfg_rho = rho\<rparr>)
      | Some m' \<Rightarrow>
          if m' = 0 then Inl ZeroDivisionError
          else
            let rho = exp (Re (lambertw (- 1 / (4 * real_of_int m')) 1) / 2)
            in if ln (1 / rho) / (2 * real_of_int m') < 0 then Inl NonFinite
               else
                 (case gamma of
                    None \<Rightarrow> Inr \<lparr>cfg_m = m', cfg_gamma = gamma_lo rho m', cfg_k = m',
                                  cfg_rho = rho\<rparr>
                  | Some g \<Rightarrow> Inr \<lparr>cfg_m = m', cfg_gamma = g,
                                    cfg_k = \<lceil>real_of_int m' * (1 - g + gamma_lo rho m')\<rceil>,
                                    cfg_rho = rho\<rparr>))"

subsection \<open>The sampling loop\<close>

text \<open>
  A method of a collaborator: from a state of the outside world to the outcome of the
  call and the next state.
\<close>

type_synonym ('a, 's, 'x) call = "'s \<Rightarrow> ('x error + 'a) \<times> 's"

text \<open>
  \<^verbatim>\<open>_sensitivity_norm(query, sensitivity_norm, x1, x2)\<close>: \<^verbatim>\<open>query.get(x1)\<close>, then
  \<^verbatim>\<open>query.get(x2)\<close>, then \<^verbatim>\<open>sensitivity_norm.compute\<close> of the two values.
\<close>

definition sensitivity_norm ::
  "('r list \<Rightarrow> ('v, 's, 'x) call) \<Rightarrow> ('v \<Rightarrow> 'v \<Rightarrow> (real, 's, 'x) call) \<Rightarrow>
   'r list \<Rightarrow> 'r list \<Rightarrow> (real, 's, 'x) call" where
  "sensitivity_norm query snorm x1 x2 s =
     (case query x1 s of
        (Inl e, s1) \<Rightarrow> (Inl e, s1)
      | (Inr value_1, s1) \<Rightarrow>
          (case query x2 s1 of
             (Inl e, s2) \<Rightarrow> (Inl e, s2)
           | (Inr value_2, s2) \<Rightarrow> snorm value_1 value_2 s2))"

text \<open>
  The body of the loop of \<^verbatim>\<open>_sensitivity_sampler\<close>, one trial:
  \<^verbatim>\<open>
  db1 = oracle.sample(n-1)
  db2 = db1
  db1 = np.concatenate((db1, oracle.sample(1)))
  db2 = np.concatenate((db2, oracle.sample(1)))
  gs[i] = self._sensitivity_norm(query, sensitivity_norm, db1, db2)
  \<close>
  A sample of the oracle is the list of its records, and \<^verbatim>\<open>np.concatenate\<close> appends.
  \<^verbatim>\<open>np.concatenate\<close> builds a new array, so the first concatenation leaves the array
  that \<^verbatim>\<open>db2\<close> names as it was.
\<close>

definition trial ::
  "('r list \<Rightarrow> ('v, 's, 'x) call) \<Rightarrow> ('v \<Rightarrow> 'v \<Rightarrow> (real, 's, 'x) call) \<Rightarrow>
   (int \<Rightarrow> ('r list, 's, 'x) call) \<Rightarrow> int \<Rightarrow> (real, 's, 'x) call" where
  "trial query snorm oracle n s =
     (case oracle (n - 1) s of
        (Inl e, s1) \<Rightarrow> (Inl e, s1)
      | (Inr shared, s1) \<Rightarrow>
          (case oracle 1 s1 of
             (Inl e, s2) \<Rightarrow> (Inl e, s2)
           | (Inr r1, s2) \<Rightarrow>
               (case oracle 1 s2 of
                  (Inl e, s3) \<Rightarrow> (Inl e, s3)
                | (Inr r2, s3) \<Rightarrow>
                    sensitivity_norm query snorm (shared @ r1) (shared @ r2) s3)))"

text \<open>
  \<^verbatim>\<open>for i in range(0, m)\<close>: the trials one after the other, the first exception ending
  the loop. The result lists \<^verbatim>\<open>gs[0], ..., gs[m-1]\<close>: every entry of the array that
  \<^verbatim>\<open>np.ones(m) * np.inf\<close> created has been overwritten when the loop is left.
\<close>

fun sampling_loop ::
  "('r list \<Rightarrow> ('v, 's, 'x) call) \<Rightarrow> ('v \<Rightarrow> 'v \<Rightarrow> (real, 's, 'x) call) \<Rightarrow>
   (int \<Rightarrow> ('r list, 's, 'x) call) \<Rightarrow> int \<Rightarrow> nat \<Rightarrow> (real list, 's, 'x) call" where
  "sampling_loop query snorm oracle n 0 s = (Inr [], s)"
| "sampling_loop query snorm oracle n (Suc j) s =
     (case trial query snorm oracle n s of
        (Inl e, s1) \<Rightarrow> (Inl e, s1)
      | (Inr g, s1) \<Rightarrow>
          (case sampling_loop query snorm oracle n j s1 of
             (Inl e, s2) \<Rightarrow> (Inl e, s2)
           | (Inr gs, s2) \<Rightarrow> (Inr (g # gs), s2)))"

text \<open>
  \<^verbatim>\<open>gs[k - 1]\<close> on the sorted array of \<open>m\<close> entries: numpy counts a negative index from
  the end and raises IndexError outside \<open>-m \<le> k - 1 < m\<close>.
\<close>

definition np_index :: "real list \<Rightarrow> int \<Rightarrow> 'x error + real" where
  "np_index xs i =
     (let len = int (length xs); j = (if i < 0 then len + i else i)
      in if 0 \<le> j \<and> j < len then Inr (xs ! nat j) else Inl IndexError)"

text \<open>\<^verbatim>\<open>np.mean\<close> of a non-empty array.\<close>

definition np_mean :: "real list \<Rightarrow> real" where
  "np_mean xs = sum_list xs / real (length xs)"

text \<open>
  \<^verbatim>\<open>_sensitivity_sampler(query, sensitivity_norm, oracle, n, m, k)\<close>. \<^verbatim>\<open>np.ones(m)\<close>
  raises ValueError for a negative \<open>m\<close>. In the returned tuple \<^verbatim>\<open>gs[k - 1]\<close> is
  evaluated before \<^verbatim>\<open>np.mean(gs)\<close>, so the mean is only taken of a non-empty array.
\<close>

definition sensitivity_sampler ::
  "('r list \<Rightarrow> ('v, 's, 'x) call) \<Rightarrow> ('v \<Rightarrow> 'v \<Rightarrow> (real, 's, 'x) call) \<Rightarrow>
   (int \<Rightarrow> ('r list, 's, 'x) call) \<Rightarrow> int \<Rightarrow> int \<Rightarrow> int \<Rightarrow> (real \<times> real, 's, 'x) call" where
  "sensitivity_sampler query snorm oracle n m k s =
     (if m < 0 then (Inl ValueError, s)
      else
        (case sampling_loop query snorm oracle n (nat m) s of
           (Inl e, s1) \<Rightarrow> (Inl e, s1)
         | (Inr gs, s1) \<Rightarrow>
             (case np_index (sort gs) (k - 1) of
                Inl e \<Rightarrow> (Inl e, s1)
              | Inr sensitivity \<Rightarrow> (Inr (sensitivity, np_mean (sort gs)), s1))))"

text \<open>
  \<^verbatim>\<open>sample_sensitivity(query, sensitivity_norm, oracle, n, m=None, gamma=None)\<close>: the
  calibrator first, then the sampler with its \<open>m\<close> and \<open>k\<close>.
\<close>

definition sample_sensitivity ::
  "(real \<Rightarrow> int \<Rightarrow> complex) \<Rightarrow>
   ('r list \<Rightarrow> ('v, 's, 'x) call) \<Rightarrow> ('v \<Rightarrow> 'v \<Rightarrow> (real, 's, 'x) call) \<Rightarrow>
   (int \<Rightarrow> ('r list, 's, 'x) call) \<Rightarrow> int \<Rightarrow> int option \<Rightarrow> real option \<Rightarrow>
   (real \<times> real, 's, 'x) call" where
  "sample_sensitivity lambertw query snorm oracle n m gamma s =
     (case sensitivity_sampler_config lambertw m gamma of
        Inl e \<Rightarrow> (Inl e, s)
      | Inr sensitivity_sampler_config' \<Rightarrow>
          sensitivity_sampler query snorm oracle n
            (cfg_m sensitivity_sampler_config') (cfg_k sensitivity_sampler_config') s)"

subsection \<open>Concrete collaborators and Lambert W values\<close>

text \<open>
  Collaborators for concrete runs. The state of the world is the number of calls the
  oracle has answered. The oracle rejects a negative count, as numpy's samplers do, and
  otherwise returns \<open>c\<close> copies of \<open>1 / (i + 1)\<close> at its call number \<open>i\<close>; the query sums
  the records of a dataset; the norm is the absolute difference.
\<close>

definition demo_oracle :: "int \<Rightarrow> (real list, nat, unit) call" where
  "demo_oracle c i =
     (if c < 0 then (Inl ValueError, i)
      else (Inr (replicate (nat c) (1 / real (i + 1))), i + 1))"

definition demo_query :: "real list \<Rightarrow> (real, nat, unit) call" where
  "demo_query db i = (Inr (sum_list db), i)"

definition demo_norm :: "real \<Rightarrow> real \<Rightarrow> (real, nat, unit) call" where
  "demo_norm v1 v2 i = (Inr \<bar>v1 - v2\<bar>, i)"

text \<open>An oracle that raises an exception of its own from its call number \<open>limit\<close> on.\<close>

definition exhausted_oracle :: "nat \<Rightarrow> int \<Rightarrow> (real list, nat, unit) call" where
  "exhausted_oracle limit c i =
     (if limit \<le> i then (Inl (Collaborator ()), i) else demo_oracle c i)"

text \<open>
  scipy gives \<^verbatim>\<open>lambertw(-0.25, 1) = -3.4897... + 7.4141...j\<close>, the argument the
  calibrator passes for \<^verbatim>\<open>m = 1\<close>. The value has no closed form. Concrete runs with a
  small \<open>m\<close> take the constant function with this value rounded to \<open>-7/2 + 15/2 i\<close>. What
  these runs show does not rest on the rounding: with \<open>gamma\<close> absent the calibrator returns
  \<open>k = m\<close> for every value (lemma \<open>config_m_only_any\<close>), and with \<open>m = 1\<close> and
  \<open>gamma = 1/2\<close> it returns an index of \<open>2\<close> at least for every value (lemma
  \<open>config_m_gamma_any\<close>).
\<close>

definition lambertw_quarter :: "real \<Rightarrow> int \<Rightarrow> complex" where
  "lambertw_quarter z k = Complex (- 7 / 2) (15 / 2)"

text \<open>
  Likewise \<^verbatim>\<open>lambertw(-0.025, 1) = -5.9180... + 7.1635...j\<close>, the argument for \<^verbatim>\<open>m = 10\<close>,
  rounded to \<open>-6 + 7 i\<close>.
\<close>

definition lambertw_fortieth :: "real \<Rightarrow> int \<Rightarrow> complex" where
  "lambertw_fortieth z k = Complex (- 6) 7"

text \<open>
  What \<^verbatim>\<open>scipy.special.lambertw(x, 1)\<close> is for a negative real \<open>x\<close>: the solution \<open>w\<close> of
  \<open>w * exp w = x\<close> on branch 1, whose imaginary part lies between \<open>2 * pi\<close> and
  \<open>3 * pi\<close>. The predicate says that the function \<open>lambertw\<close> has this value at the
  argument \<open>x\<close>.
\<close>

definition lambertw_branch1 :: "(real \<Rightarrow> int \<Rightarrow> complex) \<Rightarrow> real \<Rightarrow> bool" where
  "lambertw_branch1 lambertw x \<longleftrightarrow>
     lambertw x 1 * exp (lambertw x 1) = of_real x \<and>
     2 * pi < Im (lambertw x 1) \<and> Im (lambertw x 1) < 3 * pi"

text \<open>
  The argument the calibrator passes to \<^verbatim>\<open>lambertw\<close>; \<open>0\<close> when both parameters are
  absent and no call is made.
\<close>

definition lambertw_argument :: "int option \<Rightarrow> real option \<Rightarrow> real" where
  "lambertw_argument m gamma =
     (case m of
        Some m' \<Rightarrow> - 1 / (4 * real_of_int m')
      | None \<Rightarrow> (case gamma of Some g \<Rightarrow> - g / (2 * exp (1 / 2)) | None \<Rightarrow> 0))"

text \<open>
  The value of branch 1 on the curve \<open>- t * cot t + t i\<close> at \<open>t = 9 pi / 4\<close>, and the
  confidence level whose calibration asks for exactly this value.
\<close>

definition lambertw_on_curve :: "real \<Rightarrow> int \<Rightarrow> complex" where
  "lambertw_on_curve z k = Complex (- (9 * pi / 4)) (9 * pi / 4)"

definition gamma_on_curve :: real where
  "gamma_on_curve = 9 * pi * sqrt 2 / 2 * exp (1 / 2 - 9 * pi / 4)"

text \<open>
  The first call of a trial that raises: \<open>raised_in_trial query snorm oracle n s e s'\<close>
  when, in a trial started in the state \<open>s\<close>, the calls before it return and it raises
  \<open>e\<close>, leaving the state \<open>s'\<close>.
\<close>

definition raised_in_trial ::
  "('r list \<Rightarrow> ('v, 's, 'x) call) \<Rightarrow> ('v \<Rightarrow> 'v \<Rightarrow> (real, 's, 'x) call) \<Rightarrow>
   (int \<Rightarrow> ('r list, 's, 'x) call) \<Rightarrow> int \<Rightarrow> 's \<Rightarrow> 'x error \<Rightarrow> 's \<Rightarrow> bool" where
  "raised_in_trial query snorm oracle n s e s' \<longleftrightarrow>
     oracle (n - 1) s = (Inl e, s') \<or>
     (\<exists>shared s1. oracle (n - 1) s = (Inr shared, s1) \<and>
        (oracle 1 s1 = (Inl e, s') \<or>
         (\<exists>r1 s2. oracle 1 s1 = (Inr r1, s2) \<and>
            (oracle 1 s2 = (Inl e, s') \<or>
             (\<exists>r2 s3. oracle 1 s2 = (Inr r2, s3) \<and>
                (query (shared @ r1) s3 = (Inl e, s') \<or>
                 (\<exists>v1 s4. query (shared @ r1) s3 = (Inr v1, s4) \<and>
                    (query (shared @ r2) s4 = (Inl e, s') \<or>
                     (\<exists>v2 s5. query (shared @ r2) s4 = (Inr v2, s5) \<and>
                        snorm v1 v2 s5 = (Inl e, s'))))))))))"

subsection \<open>Arrays and the federated average\<close>

text \<open>
  A numeric array is a number (an array of no dimension) or a list of arrays, as the
  nested lists that \<^verbatim>\<open>np.array\<close> reads. Its shape is defined when the nesting is
  regular: \<^verbatim>\<open>np.array\<close> raises \<^verbatim>\<open>ValueError\<close> on an irregular nesting (numpy 1.24 and
  later; earlier versions build an array of objects there, which is outside the
  model). The empty list has the shape \<open>(0,)\<close>.
\<close>

datatype ndarray = Scalar real | Array "ndarray list"

fun shape :: "ndarray \<Rightarrow> nat list option" where
  "shape (Scalar x) = Some []"
| "shape (Array xs) =
     (case map shape xs of
        [] \<Rightarrow> Some [0]
      | None # ts \<Rightarrow> None
      | Some s # ts \<Rightarrow>
          if list_all (\<lambda>t. t = Some s) ts then Some (length xs # s) else None)"

text \<open>The sub-arrays along the first axis, and the entry \<^verbatim>\<open>a[i1, ..., ik]\<close> at a full index,
  \<open>None\<close> where numpy raises \<^verbatim>\<open>IndexError\<close> or the index is not a full one.\<close>

fun rows :: "ndarray \<Rightarrow> ndarray list" where
  "rows (Scalar x) = []"
| "rows (Array xs) = xs"

fun item :: "ndarray \<Rightarrow> nat list \<Rightarrow> real option" where
  "item (Scalar x) [] = Some x"
| "item (Scalar x) (i # p) = None"
| "item (Array xs) [] = None"
| "item (Array xs) (i # p) = (if i < length xs then item (xs ! i) p else None)"

text \<open>
  The arrays that exist are the cells of a heap below the counter \<open>allocated\<close>; a
  Python reference to an array is the address of its cell. \<^verbatim>\<open>np.array\<close> and \<^verbatim>\<open>np.mean\<close>
  each return a new array: the model writes it to the next free cell and returns
  that address. No other write occurs in \<^verbatim>\<open>aggregate_weights\<close>.
\<close>

record heap =
  cells :: "nat \<Rightarrow> ndarray"
  allocated :: nat

definition alloc :: "ndarray \<Rightarrow> heap \<Rightarrow> nat \<times> heap" where
  "alloc v h = (allocated h, h\<lparr>cells := (cells h)(allocated h := v), allocated := Suc (allocated h)\<rparr>)"

text \<open>\<^verbatim>\<open>np.array(refs)\<close> for a Python list of references to arrays.\<close>

definition np_array :: "nat list \<Rightarrow> heap \<Rightarrow> ('x error + nat) \<times> heap" where
  "np_array refs h =
     (case shape (Array (map (cells h) refs)) of
        None \<Rightarrow> (Inl ValueError, h)
      | Some s \<Rightarrow> (case alloc (Array (map (cells h) refs)) h of (r, h') \<Rightarrow> (Inr r, h')))"

text \<open>\<^verbatim>\<open>a.shape[i]\<close>, and the slice \<^verbatim>\<open>a[:, layer]\<close>, a view that allocates nothing.\<close>

definition shape_index :: "ndarray \<Rightarrow> nat \<Rightarrow> 'x error + nat" where
  "shape_index a i =
     (case shape a of
        None \<Rightarrow> Inl ValueError
      | Some s \<Rightarrow> if i < length s then Inr (s ! i) else Inl IndexError)"

definition column :: "ndarray \<Rightarrow> nat \<Rightarrow> 'x error + ndarray" where
  "column a layer =
     (if list_all (\<lambda>c. layer < length (rows c)) (rows a)
      then Inr (Array (map (\<lambda>c. rows c ! layer) (rows a)))
      else Inl IndexError)"

text \<open>
  \<^verbatim>\<open>np.mean(a, axis=0)\<close> adds the sub-arrays of \<open>a\<close> along its first axis entry by entry
  and divides each sum by their number. The sub-arrays of an array have one shape,
  so the sum and the quotient are defined here on arrays of one shape; on other
  arguments \<open>add_elementwise\<close> returns an argument unchanged and carries no meaning.
  A call without a first axis raises numpy's \<^verbatim>\<open>AxisError\<close>, an \<^verbatim>\<open>IndexError\<close>; the mean
  of no sub-array is \<^verbatim>\<open>nan\<close>.
\<close>

primrec add_elementwise :: "ndarray \<Rightarrow> ndarray \<Rightarrow> ndarray" where
  "add_elementwise (Scalar x) b = (case b of Scalar y \<Rightarrow> Scalar (x + y) | Array ys \<Rightarrow> Array ys)"
| "add_elementwise (Array xs) b =
     (case b of
        Scalar y \<Rightarrow> Array xs
      | Array ys \<Rightarrow> Array (map (\<lambda>(f, y). f y) (zip (map add_elementwise xs) ys)))"

primrec true_divide :: "ndarray \<Rightarrow> real \<Rightarrow> ndarray" where
  "true_divide (Scalar x) c = Scalar (x / c)"
| "true_divide (Array xs) c = Array (map (\<lambda>a. true_divide a c) xs)"

definition np_mean_axis0 :: "ndarray \<Rightarrow> heap \<Rightarrow> ('x error + nat) \<times> heap" where
  "np_mean_axis0 a h =
     (case shape a of
        None \<Rightarrow> (Inl ValueError, h)
      | Some [] \<Rightarrow> (Inl IndexError, h)
      | Some (n # s) \<Rightarrow>
          (case rows a of
             [] \<Rightarrow> (Inl NonFinite, h)
           | r # rs \<Rightarrow>
               (case alloc (true_divide (foldl add_elementwise r rs) (real n)) h of
                  (m, h') \<Rightarrow> (Inr m, h'))))"

text \<open>
  The list comprehension
  \<^verbatim>\<open>[np.mean(clients_params_array[:, layer], axis=0) for layer in range(shape)]\<close>,
  from the first layer to the last, with the references to the means it builds.
\<close>

fun layer_means :: "ndarray \<Rightarrow> nat list \<Rightarrow> heap \<Rightarrow> ('x error + nat list) \<times> heap" where
  "layer_means a [] h = (Inr [], h)"
| "layer_means a (layer # layers) h =
     (case column a layer of
        Inl e \<Rightarrow> (Inl e, h)
      | Inr col \<Rightarrow>
          (case np_mean_axis0 col h of
             (Inl e, h1) \<Rightarrow> (Inl e, h1)
           | (Inr m, h1) \<Rightarrow>
               (case layer_means a layers h1 of
                  (Inl e, h2) \<Rightarrow> (Inl e, h2)
                | (Inr ms, h2) \<Rightarrow> (Inr (m # ms), h2))))"

text \<open>
  \<^verbatim>\<open>FedAvgAggregator.aggregate_weights\<close>. The argument is the list of the references to
  the clients' arrays; the local name \<^verbatim>\<open>shape\<close> of the source is \<open>shape1\<close> here.
\<close>

definition aggregate_weights :: "nat list \<Rightarrow> heap \<Rightarrow> ('x error + nat) \<times> heap" where
  "aggregate_weights clients_params h =
     (case np_array clients_params h of
        (Inl e, h1) \<Rightarrow> (Inl e, h1)
      | (Inr clients_params_array, h1) \<Rightarrow>
          (case shape_index (cells h1 clients_params_array) 1 of
             Inl e \<Rightarrow> (Inl e, h1)
           | Inr shape1 \<Rightarrow>
               (case layer_means (cells h1 clients_params_array) [0..<shape1] h1 of
                  (Inl e, h2) \<Rightarrow> (Inl e, h2)
                | (Inr means, h2) \<Rightarrow> np_array means h2)))"

text \<open>
  The arithmetic mean of the entries that the clients hold at one index: no value
  where a client has no entry there, and none for no client.
\<close>

definition arithmetic_mean :: "real option list \<Rightarrow> real option" where
  "arithmetic_mean es =
     (if es \<noteq> [] \<and> list_all (\<lambda>e. e \<noteq> None) es
      then Some (sum_list (map the es) / real (length es))
      else None)"

text \<open>Two clients with two layers of two entries each, at the addresses 0 and 1.\<close>

definition demo_heap :: heap where
  "demo_heap =
     \<lparr>cells = (\<lambda>a. Scalar 0)
        (0 := Array [Array [Scalar 1, Scalar 2], Array [Scalar 3, Scalar 4]],
         1 := Array [Array [Scalar 3, Scalar 6], Array [Scalar 5, Scalar 8]]),
      allocated = 2\<rparr>"


section \<open>Properties\<close>

subsection \<open>The sampling loop\<close>

lemma sampling_loop_length:
  "sampling_loop query snorm oracle n j s = (Inr gs, s') \<Longrightarrow> length gs = j"
proof (induction j arbitrary: s gs)
  case 0
  then show ?case by simp
next
  case (Suc j)
  from Suc.prems obtain g s1 hs where
    "trial query snorm oracle n s = (Inr g, s1)"
    "sampling_loop query snorm oracle n j s1 = (Inr hs, s')" "gs = g # hs"
    by (simp split: prod.splits sum.splits)
  with Suc.IH show ?case by simp
qed

text \<open>A loop of \<open>i + j\<close> trials is a loop of \<open>i\<close> trials followed by one of \<open>j\<close>.\<close>

lemma sampling_loop_add:
  "sampling_loop query snorm oracle n (i + j) s =
     (case sampling_loop query snorm oracle n i s of
        (Inl e, s1) \<Rightarrow> (Inl e, s1)
      | (Inr gs, s1) \<Rightarrow>
          (case sampling_loop query snorm oracle n j s1 of
             (Inl e, s2) \<Rightarrow> (Inl e, s2)
           | (Inr hs, s2) \<Rightarrow> (Inr (gs @ hs), s2)))"
proof (induction i arbitrary: s)
  case 0
  show ?case
    by (cases "sampling_loop query snorm oracle n j s" rule: prod.exhaust)
       (simp split: sum.splits)
next
  case (Suc i)
  obtain r s1 where t: "trial query snorm oracle n s = (r, s1)"
    by (cases "trial query snorm oracle n s")
  show ?case
  proof (cases r)
    case (Inl e)
    with t show ?thesis by simp
  next
    case (Inr g)
    with t Suc [of s1] show ?thesis
      by (simp split: prod.splits sum.splits)
  qed
qed

lemma sampling_loop_fails:
  assumes "i < j"
    and "sampling_loop query snorm oracle n i s = (Inr gs, si)"
    and "trial query snorm oracle n si = (Inl e, sf)"
  shows "sampling_loop query snorm oracle n j s = (Inl e, sf)"
proof -
  from \<open>i < j\<close> obtain d where "j = Suc (i + d)"
    by (auto simp: less_iff_Suc_add)
  then have j: "j = i + Suc d" by simp
  have "sampling_loop query snorm oracle n (Suc d) si = (Inl e, sf)"
    using assms(3) by simp
  with assms(2) have "sampling_loop query snorm oracle n (i + Suc d) s = (Inl e, sf)"
    by (subst sampling_loop_add) simp
  then show ?thesis
    unfolding j .
qed

lemma sampling_loop_nth:
  assumes "sampling_loop query snorm oracle n j s = (Inr gs, s')" and "i < j"
  shows "\<exists>si sj. sampling_loop query snorm oracle n i s = (Inr (take i gs), si) \<and>
           trial query snorm oracle n si = (Inr (gs ! i), sj)"
proof -
  from \<open>i < j\<close> obtain d where "j = Suc (i + d)"
    by (auto simp: less_iff_Suc_add)
  then have j: "j = i + Suc d" by simp
  have split: "(case sampling_loop query snorm oracle n i s of
        (Inl e, s1) \<Rightarrow> (Inl e, s1)
      | (Inr gs, s1) \<Rightarrow>
          (case sampling_loop query snorm oracle n (Suc d) s1 of
             (Inl e, s2) \<Rightarrow> (Inl e, s2)
           | (Inr hs, s2) \<Rightarrow> (Inr (gs @ hs), s2))) = (Inr gs, s')"
    using assms(1) unfolding j sampling_loop_add .
  then obtain hs si where
      i: "sampling_loop query snorm oracle n i s = (Inr hs, si)"
    by (cases "sampling_loop query snorm oracle n i s" rule: prod.exhaust)
       (auto split: sum.splits)
  with split obtain ts where
      r: "sampling_loop query snorm oracle n (Suc d) si = (Inr ts, s')" and gs: "gs = hs @ ts"
    by (cases "sampling_loop query snorm oracle n (Suc d) si" rule: prod.exhaust)
       (auto split: sum.splits simp del: sampling_loop.simps)
  from r obtain g sj us where
      t: "trial query snorm oracle n si = (Inr g, sj)" and ts: "ts = g # us"
    by (cases "trial query snorm oracle n si" rule: prod.exhaust)
       (auto split: sum.splits prod.splits)
  have "length hs = i" using i by (rule sampling_loop_length)
  then show ?thesis using i t gs ts by (auto simp: nth_append)
qed

lemma sensitivity_norm_raises:
  "sensitivity_norm query snorm x1 x2 s = (Inl e, s') \<longleftrightarrow>
     query x1 s = (Inl e, s') \<or>
     (\<exists>v1 s4. query x1 s = (Inr v1, s4) \<and>
        (query x2 s4 = (Inl e, s') \<or>
         (\<exists>v2 s5. query x2 s4 = (Inr v2, s5) \<and> snorm v1 v2 s5 = (Inl e, s'))))"
proof (cases "query x1 s" rule: prod.exhaust)
  case (Pair r1 t1)
  show ?thesis
  proof (cases r1)
    case (Inl a)
    with Pair show ?thesis by (simp add: sensitivity_norm_def)
  next
    case (Inr v1)
    show ?thesis
    proof (cases "query x2 t1" rule: prod.exhaust)
      case q2: (Pair r2 t2)
      show ?thesis
        using Pair Inr q2 by (cases r2) (simp_all add: sensitivity_norm_def)
    qed
  qed
qed

lemma trial_raises:
  "trial query snorm oracle n s = (Inl e, s') \<longleftrightarrow> raised_in_trial query snorm oracle n s e s'"
proof (cases "oracle (n - 1) s" rule: prod.exhaust)
  case o1: (Pair a1 t1)
  show ?thesis
  proof (cases a1)
    case (Inl x)
    with o1 show ?thesis by (simp add: trial_def raised_in_trial_def)
  next
    case sh: (Inr shared)
    show ?thesis
    proof (cases "oracle 1 t1" rule: prod.exhaust)
      case o2: (Pair a2 t2)
      show ?thesis
      proof (cases a2)
        case (Inl x)
        with o1 sh o2 show ?thesis by (simp add: trial_def raised_in_trial_def)
      next
        case r1: (Inr r1)
        show ?thesis
        proof (cases "oracle 1 t2" rule: prod.exhaust)
          case o3: (Pair a3 t3)
          show ?thesis
          proof (cases a3)
            case (Inl x)
            with o1 sh o2 r1 o3 show ?thesis by (simp add: trial_def raised_in_trial_def)
          next
            case r2: (Inr r2)
            with o1 sh o2 r1 o3 show ?thesis
              by (simp add: trial_def raised_in_trial_def sensitivity_norm_raises)
          qed
        qed
      qed
    qed
  qed
qed

subsection \<open>The concrete collaborators\<close>

text \<open>
  A trial with the concrete collaborators started at the oracle's call number \<open>i\<close>: the
  shared records are copies of \<open>1 / (i + 1)\<close>, the two last records are \<open>1 / (i + 2)\<close> and
  \<open>1 / (i + 3)\<close>, and the sums of the two datasets differ by their difference.
\<close>

lemma demo_trial:
  "1 \<le> n \<Longrightarrow> trial demo_query demo_norm demo_oracle n i =
     (Inr (1 / (real i + 2) - 1 / (real i + 3)), i + 3)"
proof -
  assume "1 \<le> n"
  have "1 / (real i + 3) \<le> 1 / (real i + 2)"
    by (intro divide_left_mono) simp_all
  then have "\<bar>1 / (real i + 2) - 1 / (real i + 3)\<bar> = 1 / (real i + 2) - 1 / (real i + 3)"
    by simp
  with \<open>1 \<le> n\<close> show ?thesis
    by (simp add: trial_def sensitivity_norm_def demo_oracle_def demo_query_def demo_norm_def
        add.commute)
qed

lemma demo_trial_rejected:
  "n < 1 \<Longrightarrow> trial demo_query demo_norm demo_oracle n i = (Inl ValueError, i)"
  by (simp add: trial_def demo_oracle_def)

lemma demo_loop_1:
  "1 \<le> n \<Longrightarrow> sampling_loop demo_query demo_norm demo_oracle n (Suc 0) 0 = (Inr [1 / 6], 3)"
  by (simp add: demo_trial)

lemma demo_loop_2:
  "1 \<le> n \<Longrightarrow>
     sampling_loop demo_query demo_norm demo_oracle n (Suc (Suc 0)) 0 = (Inr [1 / 6, 1 / 30], 6)"
  by (simp add: demo_trial)

lemma demo_loop_3:
  "1 \<le> n \<Longrightarrow>
     sampling_loop demo_query demo_norm demo_oracle n (Suc (Suc (Suc 0))) 0 =
       (Inr [1 / 6, 1 / 30, 1 / 72], 9)"
  by (simp add: demo_trial)

subsection \<open>The calibrator with \<open>m\<close> given\<close>

lemma config_both:
  assumes "m \<noteq> 0" and "rho = exp (Re (lambertw (- 1 / (4 * real_of_int m)) 1) / 2)"
    and "0 \<le> ln (1 / rho) / (2 * real_of_int m)"
  shows "sensitivity_sampler_config lambertw (Some m) (Some g) =
    Inr \<lparr>cfg_m = m, cfg_gamma = g,
         cfg_k = \<lceil>real_of_int m * (1 - g + gamma_lo rho m)\<rceil>, cfg_rho = rho\<rparr>"
  using assms by (simp add: sensitivity_sampler_config_def Let_def not_less [symmetric])

lemma config_m_only:
  assumes "m \<noteq> 0" and "rho = exp (Re (lambertw (- 1 / (4 * real_of_int m)) 1) / 2)"
    and "0 \<le> ln (1 / rho) / (2 * real_of_int m)"
  shows "sensitivity_sampler_config lambertw (Some m) None =
    Inr \<lparr>cfg_m = m, cfg_gamma = gamma_lo rho m, cfg_k = m, cfg_rho = rho\<rparr>"
  using assms by (simp add: sensitivity_sampler_config_def Let_def not_less [symmetric])

lemma exp_neg_7_4: "exp (- 7 / 4 :: real) \<le> 1 / 2"
proof -
  have "1 + (7 / 4 :: real) \<le> exp (7 / 4)" by (rule exp_ge_add_one_self)
  then have "2 \<le> exp (7 / 4 :: real)" by simp
  then have "inverse (exp (7 / 4 :: real)) \<le> inverse 2"
    by (intro le_imp_inverse_le) simp_all
  then show ?thesis by (simp add: exp_minus)
qed

lemma sqrt_7_8: "1 / 2 < sqrt (7 / 8 :: real)" "sqrt (7 / 8 :: real) \<le> 1"
proof -
  show "1 / 2 < sqrt (7 / 8 :: real)" by (rule real_less_rsqrt) (simp add: power2_eq_square)
  show "sqrt (7 / 8 :: real) \<le> 1" by (rule real_le_lsqrt) simp_all
qed

lemma gamma_lo_quarter: "gamma_lo (exp (- 7 / 4)) 1 = exp (- 7 / 4) + sqrt (7 / 8)"
  by (simp add: gamma_lo_def ln_div)

lemma k_quarter: "\<lceil>real_of_int 1 * (1 - 1 / 2 + gamma_lo (exp (- 7 / 4)) 1)\<rceil> = 2"
proof -
  have "0 < exp (- 7 / 4 :: real)" by simp
  with sqrt_7_8 exp_neg_7_4
  have "1 < 1 - 1 / 2 + gamma_lo (exp (- 7 / 4)) 1" "1 - 1 / 2 + gamma_lo (exp (- 7 / 4)) 1 \<le> 2"
    unfolding gamma_lo_quarter by linarith+
  then show ?thesis
    by (intro ceiling_unique) simp_all
qed

lemma config_quarter_both:
  "sensitivity_sampler_config lambertw_quarter (Some 1) (Some (1 / 2)) =
     Inr \<lparr>cfg_m = 1, cfg_gamma = 1 / 2, cfg_k = 2, cfg_rho = exp (- 7 / 4)\<rparr>"
proof -
  have "sensitivity_sampler_config lambertw_quarter (Some 1) (Some (1 / 2)) =
     Inr \<lparr>cfg_m = 1, cfg_gamma = 1 / 2,
          cfg_k = \<lceil>real_of_int 1 * (1 - 1 / 2 + gamma_lo (exp (- 7 / 4)) 1)\<rceil>,
          cfg_rho = exp (- 7 / 4)\<rparr>"
    by (rule config_both) (simp_all add: lambertw_quarter_def ln_div)
  then show ?thesis by (simp only: k_quarter)
qed

lemma config_quarter_m_only:
  "0 < m \<Longrightarrow> sensitivity_sampler_config lambertw_quarter (Some m) None =
     Inr \<lparr>cfg_m = m, cfg_gamma = gamma_lo (exp (- 7 / 4)) m, cfg_k = m,
          cfg_rho = exp (- 7 / 4)\<rparr>"
  by (rule config_m_only) (simp_all add: lambertw_quarter_def ln_div)

subsection \<open>The order statistic and the mean\<close>

lemma np_index_in_range:
  "0 \<le> i \<Longrightarrow> i < int (length xs) \<Longrightarrow> np_index xs i = Inr (xs ! nat i)"
  by (simp add: np_index_def)

lemma np_index_out_of_range:
  "int (length xs) \<le> i \<or> i < - int (length xs) \<Longrightarrow> np_index xs i = Inl IndexError"
  by (auto simp: np_index_def Let_def)

lemma np_mean_sort: "np_mean (sort xs) = sum_list xs / real (length xs)"
proof -
  have "sum_list (sort xs) = sum_mset (mset (sort xs))"
    by (simp only: sum_mset_sum_list)
  also have "\<dots> = sum_list xs"
    by (simp add: sum_mset_sum_list)
  finally show ?thesis by (simp add: np_mean_def)
qed

text \<open>
  Claim C2, as amended. When the calibrator returns a configuration with \<open>1 \<le> k \<le> m\<close> and
  all \<open>m\<close> trials return, with the samples \<open>gs\<close> in the order of the trials,
  \<^verbatim>\<open>sample_sensitivity\<close> returns the pair of the entry at the zero-based index \<open>k - 1\<close> of
  the samples sorted in ascending order (\<open>sort gs\<close> is sorted and has the entries of \<open>gs\<close>
  with their multiplicities, so this entry is the \<open>k\<close>-th smallest sample) and of the
  arithmetic mean of the \<open>m\<close> samples. The state returned is the one the last trial left.
\<close>

theorem sample_sensitivity_order_statistic:
  fixes query :: "'r list \<Rightarrow> ('v, 's, 'x) call"
  assumes cfg: "sensitivity_sampler_config lambertw m gamma = (Inr c :: 'x error + config)"
    and loop: "sampling_loop query snorm oracle n (nat (cfg_m c)) s = (Inr gs, s')"
    and k: "1 \<le> cfg_k c" "cfg_k c \<le> cfg_m c"
  shows "sample_sensitivity lambertw query snorm oracle n m gamma s =
           (Inr (sort gs ! nat (cfg_k c - 1), sum_list gs / real (length gs)), s') \<and>
         int (length gs) = cfg_m c \<and> sorted (sort gs) \<and> mset (sort gs) = mset gs"
proof -
  from loop have len: "length gs = nat (cfg_m c)"
    by (rule sampling_loop_length)
  with k have len': "int (length gs) = cfg_m c" by simp
  have "0 \<le> cfg_k c - 1" "cfg_k c - 1 < int (length (sort gs))" "\<not> cfg_m c < 0"
    using k len' by simp_all
  then have "sensitivity_sampler query snorm oracle n (cfg_m c) (cfg_k c) s =
      (Inr (sort gs ! nat (cfg_k c - 1), sum_list gs / real (length gs)), s')"
    using loop by (simp add: sensitivity_sampler_def np_mean_sort np_index_in_range)
  with cfg len' show ?thesis
    by (simp add: sample_sensitivity_def)
qed

text \<open>
  A run of three trials with \<open>k = m = 3\<close>: the samples are \<open>1/6\<close>, \<open>1/30\<close> and \<open>1/72\<close> in
  the order of the trials, and the third smallest is the first one drawn.
\<close>

theorem sample_sensitivity_order_statistic_witness:
  "sample_sensitivity lambertw_quarter demo_query demo_norm demo_oracle 2 (Some 3) None 0 =
     (Inr (1 / 6, (1 / 6 + 1 / 30 + 1 / 72) / 3), 9)"
proof -
  have cfg: "sensitivity_sampler_config lambertw_quarter (Some 3) None =
     (Inr \<lparr>cfg_m = 3, cfg_gamma = gamma_lo (exp (- 7 / 4)) 3, cfg_k = 3,
          cfg_rho = exp (- 7 / 4)\<rparr> :: unit error + config)"
    by (rule config_quarter_m_only) simp
  have loop: "sampling_loop demo_query demo_norm demo_oracle 2
      (nat (cfg_m \<lparr>cfg_m = 3, cfg_gamma = gamma_lo (exp (- 7 / 4)) 3, cfg_k = 3,
          cfg_rho = exp (- 7 / 4)\<rparr>)) 0 = (Inr [1 / 6, 1 / 30, 1 / 72], 9)"
    using demo_loop_3 [of 2] by (simp add: numeral_3_eq_3)
  show ?thesis
    using sample_sensitivity_order_statistic [OF cfg loop] by simp
qed

text \<open>
  Claim C2 as stated fails where the calibrator returns \<open>k > m\<close>: with \<open>m = 1\<close> and
  \<open>gamma = 1/2\<close> it returns \<open>k = 2\<close>; the single trial returns its sample, and the lookup
  \<^verbatim>\<open>gs[k - 1]\<close> raises IndexError, so that no pair is returned.
\<close>

theorem completed_run_without_estimate:
  "sampling_loop demo_query demo_norm demo_oracle 3 (nat 1) 0 = (Inr [1 / 6], 3) \<and>
   sample_sensitivity lambertw_quarter demo_query demo_norm demo_oracle 3 (Some 1) (Some (1 / 2)) 0 =
     (Inl IndexError, 3)"
  by (simp add: sample_sensitivity_def config_quarter_both sensitivity_sampler_def demo_trial
      np_index_def)

subsection \<open>The datasets of a trial\<close>

lemma demo_oracle_count:
  "0 \<le> c \<Longrightarrow> demo_oracle c t = (Inr rs, t') \<Longrightarrow> int (length rs) = c"
  by (auto simp: demo_oracle_def)

lemma singleton_length: "int (length xs) = 1 \<Longrightarrow> \<exists>a. xs = [a]"
  by (cases xs) auto

lemma trial_returns:
  assumes "trial query snorm oracle n s = (Inr g, s')"
  shows "\<exists>shared r1 r2 s1 s2 s3 v1 s4 v2 s5.
      oracle (n - 1) s = (Inr shared, s1) \<and> oracle 1 s1 = (Inr r1, s2) \<and>
      oracle 1 s2 = (Inr r2, s3) \<and>
      query (shared @ r1) s3 = (Inr v1, s4) \<and> query (shared @ r2) s4 = (Inr v2, s5) \<and>
      snorm v1 v2 s5 = (Inr g, s')"
proof -
  from assms obtain shared s1 where o1: "oracle (n - 1) s = (Inr shared, s1)"
    by (cases "oracle (n - 1) s" rule: prod.exhaust)
       (auto simp: trial_def split: sum.splits)
  with assms obtain r1 s2 where o2: "oracle 1 s1 = (Inr r1, s2)"
    by (cases "oracle 1 s1" rule: prod.exhaust)
       (auto simp: trial_def split: sum.splits)
  with assms o1 obtain r2 s3 where o3: "oracle 1 s2 = (Inr r2, s3)"
    by (cases "oracle 1 s2" rule: prod.exhaust)
       (auto simp: trial_def split: sum.splits)
  with assms o1 o2 have n: "sensitivity_norm query snorm (shared @ r1) (shared @ r2) s3 = (Inr g, s')"
    by (simp add: trial_def)
  then obtain v1 s4 where q1: "query (shared @ r1) s3 = (Inr v1, s4)"
    by (cases "query (shared @ r1) s3" rule: prod.exhaust)
       (auto simp: sensitivity_norm_def split: sum.splits)
  with n obtain v2 s5 where q2: "query (shared @ r2) s4 = (Inr v2, s5)"
    by (cases "query (shared @ r2) s4" rule: prod.exhaust)
       (auto simp: sensitivity_norm_def split: sum.splits)
  with n q1 have "snorm v1 v2 s5 = (Inr g, s')"
    by (simp add: sensitivity_norm_def)
  with o1 o2 o3 q1 q2 show ?thesis by blast
qed

text \<open>
  Claim C3. Let the loop of \<open>m\<close> trials return the samples \<open>gs\<close>, let \<open>1 \<le> n\<close>, and let the
  oracle keep its contract: a call for \<open>c \<ge> 0\<close> records that returns, returns \<open>c\<close> records.
  Then trial \<open>i\<close> starts in the state \<open>si\<close> that the first \<open>i\<close> trials leave, draws \<open>n - 1\<close>
  shared records, then one record \<open>a\<close>, then, by a further call of the oracle, one record
  \<open>b\<close>. Its datasets are \<open>D1 = shared @ [a]\<close> and \<open>D2 = shared @ [b]\<close>: both have \<open>n\<close>
  records, the first \<open>n - 1\<close> in common, and they differ at most in the last. The sample
  \<open>gs ! i\<close> is what the norm returns for the values the query returns for \<open>D1\<close> and for
  \<open>D2\<close>, in this order.
\<close>

theorem trial_neighbouring_pair:
  assumes loop: "sampling_loop query snorm oracle n m s = (Inr gs, s')"
    and i: "i < m" and n: "1 \<le> n"
    and contract: "\<And>c t rs t'. 0 \<le> c \<Longrightarrow> oracle c t = (Inr rs, t') \<Longrightarrow> int (length rs) = c"
  shows "\<exists>si shared a b s1 s2 s3 v1 s4 v2 s5 s6.
      sampling_loop query snorm oracle n i s = (Inr (take i gs), si) \<and>
      oracle (n - 1) si = (Inr shared, s1) \<and> int (length shared) = n - 1 \<and>
      oracle 1 s1 = (Inr [a], s2) \<and> oracle 1 s2 = (Inr [b], s3) \<and>
      query (shared @ [a]) s3 = (Inr v1, s4) \<and> query (shared @ [b]) s4 = (Inr v2, s5) \<and>
      snorm v1 v2 s5 = (Inr (gs ! i), s6)"
proof -
  from sampling_loop_nth [OF loop i] obtain si sj where
      before: "sampling_loop query snorm oracle n i s = (Inr (take i gs), si)"
      and t: "trial query snorm oracle n si = (Inr (gs ! i), sj)"
    by blast
  from trial_returns [OF t] obtain shared r1 r2 s1 s2 s3 v1 s4 v2 s5 where
      o1: "oracle (n - 1) si = (Inr shared, s1)" and o2: "oracle 1 s1 = (Inr r1, s2)"
      and o3: "oracle 1 s2 = (Inr r2, s3)"
      and q1: "query (shared @ r1) s3 = (Inr v1, s4)"
      and q2: "query (shared @ r2) s4 = (Inr v2, s5)"
      and nv: "snorm v1 v2 s5 = (Inr (gs ! i), sj)"
    by blast
  from n o1 have len: "int (length shared) = n - 1"
    by (intro contract) simp_all
  from o2 have "int (length r1) = 1" by (intro contract) simp_all
  then obtain a where a: "r1 = [a]" using singleton_length by blast
  from o3 have "int (length r2) = 1" by (intro contract) simp_all
  then obtain b where b: "r2 = [b]" using singleton_length by blast
  from before o1 len o2 o3 q1 q2 nv show ?thesis
    unfolding a b by blast
qed

text \<open>The second of two trials with the concrete collaborators and \<open>n = 2\<close>.\<close>

theorem trial_neighbouring_pair_witness:
  "\<exists>si shared a b s1 s2 s3 v1 s4 v2 s5 s6.
      sampling_loop demo_query demo_norm demo_oracle 2 1 0 = (Inr (take 1 [1 / 6, 1 / 30]), si) \<and>
      demo_oracle (2 - 1) si = (Inr shared, s1) \<and> int (length shared) = 2 - 1 \<and>
      demo_oracle 1 s1 = (Inr [a], s2) \<and> demo_oracle 1 s2 = (Inr [b], s3) \<and>
      demo_query (shared @ [a]) s3 = (Inr v1, s4) \<and> demo_query (shared @ [b]) s4 = (Inr v2, s5) \<and>
      demo_norm v1 v2 s5 = (Inr ([1 / 6, 1 / 30] ! 1), s6)"
proof -
  have loop: "sampling_loop demo_query demo_norm demo_oracle 2 2 0 = (Inr [1 / 6, 1 / 30], 6)"
    using demo_loop_2 [of 2] by (simp add: numeral_2_eq_2)
  show ?thesis
    by (rule trial_neighbouring_pair [OF loop _ _ demo_oracle_count]) simp_all
qed

subsection \<open>Rejected and unchecked parameters\<close>

text \<open>
  Claim C6, as amended. With both \<open>m\<close> and \<open>gamma\<close> absent the calibrator fails with Python's
  TypeError, raised by the negation of the absent \<open>gamma\<close>, and so does
  \<^verbatim>\<open>sample_sensitivity\<close>, whatever the other arguments are; the state of the world is
  the initial one, so no collaborator has been called.
\<close>

theorem both_absent_type_error:
  "sample_sensitivity lambertw query snorm oracle n None None s = (Inl TypeError, s) \<and>
   sensitivity_sampler_config lambertw None None = Inl TypeError"
  by (simp add: sample_sensitivity_def sensitivity_sampler_config_def)

text \<open>
  Claim C6 as stated names the error InvalidConfiguration; the error of the call and of
  the calibrator is another one.
\<close>

theorem both_absent_not_invalid_configuration:
  "fst (sample_sensitivity lambertw_quarter demo_query demo_norm demo_oracle 2 None None 0)
     \<noteq> Inl InvalidConfiguration \<and>
   (sensitivity_sampler_config lambertw_quarter None None :: unit error + config)
     \<noteq> Inl InvalidConfiguration"
  by (simp add: sample_sensitivity_def sensitivity_sampler_config_def)

text \<open>
  Claim C5, as amended. The calibrator returns the \<open>k\<close> it computes, in range or not. When
  \<open>k > m\<close> or \<open>k \<le> - m\<close> (for \<open>m \<ge> 0\<close>) and the \<open>m\<close> trials return,
  \<^verbatim>\<open>sample_sensitivity\<close> fails with IndexError at the lookup \<^verbatim>\<open>gs[k - 1]\<close>, after the
  trials: the state is the one the last trial left. No estimate is returned and \<open>k\<close> is
  not clamped.
\<close>

theorem out_of_range_k_index_error:
  fixes query :: "'r list \<Rightarrow> ('v, 's, 'x) call"
  assumes cfg: "sensitivity_sampler_config lambertw m gamma = (Inr c :: 'x error + config)"
    and m: "0 \<le> cfg_m c"
    and loop: "sampling_loop query snorm oracle n (nat (cfg_m c)) s = (Inr gs, s')"
    and k: "cfg_m c < cfg_k c \<or> cfg_k c \<le> - cfg_m c"
  shows "sample_sensitivity lambertw query snorm oracle n m gamma s = (Inl IndexError, s')"
proof -
  from loop have "length gs = nat (cfg_m c)"
    by (rule sampling_loop_length)
  with m have len: "int (length (sort gs)) = cfg_m c" by simp
  from k have "int (length (sort gs)) \<le> cfg_k c - 1 \<or> cfg_k c - 1 < - int (length (sort gs))"
    unfolding len by linarith
  then have "np_index (sort gs) (cfg_k c - 1) = (Inl IndexError :: 'x error + real)"
    by (rule np_index_out_of_range)
  with m loop have "sensitivity_sampler query snorm oracle n (cfg_m c) (cfg_k c) s =
      (Inl IndexError, s')"
    by (simp add: sensitivity_sampler_def)
  with cfg show ?thesis
    by (simp add: sample_sensitivity_def)
qed

text \<open>\<open>m = 1\<close> and \<open>gamma = 1/2\<close> give \<open>k = 2\<close>; the run has drawn its three samples.\<close>

theorem out_of_range_k_index_error_witness:
  "sample_sensitivity lambertw_quarter demo_query demo_norm demo_oracle 4 (Some 1) (Some (1 / 2)) 0 =
     (Inl IndexError, 3)"
proof -
  let ?c = "\<lparr>cfg_m = 1, cfg_gamma = 1 / 2, cfg_k = 2, cfg_rho = exp (- 7 / 4)\<rparr>"
  have loop: "sampling_loop demo_query demo_norm demo_oracle 4 (nat (cfg_m ?c)) 0 = (Inr [1 / 6], 3)"
    using demo_loop_1 [of 4] by simp
  show ?thesis
    by (rule out_of_range_k_index_error [OF config_quarter_both _ loop]) simp_all
qed

text \<open>
  Claim C5 as stated fails at \<open>m = 1\<close>, \<open>gamma = 1/2\<close>: the calibrator returns \<open>k = 2 > m\<close>
  and no error, and the call fails after the sampling, with IndexError, where the claim
  has InvalidConfiguration before any sampling.
\<close>

theorem out_of_range_k_not_rejected:
  "(sensitivity_sampler_config lambertw_quarter (Some 1) (Some (1 / 2)) :: unit error + config) =
     Inr \<lparr>cfg_m = 1, cfg_gamma = 1 / 2, cfg_k = 2, cfg_rho = exp (- 7 / 4)\<rparr> \<and>
   sample_sensitivity lambertw_quarter demo_query demo_norm demo_oracle 2 (Some 1) (Some (1 / 2)) 0 =
     (Inl IndexError, 3) \<and>
   (Inl IndexError, 3) \<noteq> (Inl InvalidConfiguration :: unit error + real \<times> real, 0 :: nat)"
  by (simp add: sample_sensitivity_def config_quarter_both sensitivity_sampler_def demo_trial
      np_index_def)

text \<open>
  Claim C7, as amended. \<^verbatim>\<open>sample_sensitivity\<close> makes no check of \<open>n\<close>. After the calibration
  (with \<open>m \<ge> 1\<close>) the first trial asks the oracle for \<open>n - 1\<close> records, for every \<open>n\<close>; when
  the oracle raises, for a negative count for instance, the call fails with the error of
  the oracle.
\<close>

theorem unchecked_n_oracle_rejects:
  fixes query :: "'r list \<Rightarrow> ('v, 's, 'x) call"
  assumes cfg: "sensitivity_sampler_config lambertw m gamma = (Inr c :: 'x error + config)"
    and m: "1 \<le> cfg_m c"
    and rejects: "oracle (n - 1) s = (Inl e, s1)"
  shows "sample_sensitivity lambertw query snorm oracle n m gamma s = (Inl e, s1)"
proof -
  from m have "0 < nat (cfg_m c)" by simp
  moreover have "sampling_loop query snorm oracle n 0 s = (Inr [], s)" by simp
  moreover from rejects have "trial query snorm oracle n s = (Inl e, s1)"
    by (simp add: trial_def)
  ultimately have "sampling_loop query snorm oracle n (nat (cfg_m c)) s = (Inl e, s1)"
    by (rule sampling_loop_fails)
  with cfg m show ?thesis
    by (simp add: sample_sensitivity_def sensitivity_sampler_def)
qed

text \<open>\<open>n = 0\<close>: the concrete oracle rejects the count \<open>- 1\<close>.\<close>

theorem unchecked_n_oracle_rejects_witness:
  "sample_sensitivity lambertw_quarter demo_query demo_norm demo_oracle 0 (Some 1) None 0 =
     (Inl ValueError, 0)"
proof -
  have cfg: "sensitivity_sampler_config lambertw_quarter (Some 1) None =
     (Inr \<lparr>cfg_m = 1, cfg_gamma = gamma_lo (exp (- 7 / 4)) 1, cfg_k = 1,
          cfg_rho = exp (- 7 / 4)\<rparr> :: unit error + config)"
    by (rule config_quarter_m_only) simp
  show ?thesis
    by (rule unchecked_n_oracle_rejects [OF cfg]) (simp_all add: demo_oracle_def)
qed

text \<open>
  Claim C7 as stated fails at \<open>n = 1\<close>: an oracle that accepts the count \<open>0\<close> is sampled,
  the datasets of the trial have one record each, and an estimate is returned.
\<close>

theorem n_below_two_accepted:
  "sample_sensitivity lambertw_quarter demo_query demo_norm demo_oracle 1 (Some 1) None 0 =
     (Inr (1 / 6, 1 / 6), 3)"
  by (simp add: sample_sensitivity_def config_quarter_m_only sensitivity_sampler_def demo_trial
      np_index_def np_mean_def)

subsection \<open>Errors of the collaborators\<close>

text \<open>
  Claim C8, as amended. When the first \<open>i < m\<close> trials return and, in the next one, a call
  of the oracle, of the query or of the norm raises \<open>e\<close> after the calls before it
  returned, \<^verbatim>\<open>sample_sensitivity\<close> fails with \<open>e\<close> itself, unchanged, and the state of the
  world is the one the raising call left: no call is repeated, none follows, and no
  estimate is returned.
\<close>

theorem collaborator_error_propagates:
  fixes query :: "'r list \<Rightarrow> ('v, 's, 'x) call"
  assumes cfg: "sensitivity_sampler_config lambertw m gamma = (Inr c :: 'x error + config)"
    and i: "i < nat (cfg_m c)"
    and before: "sampling_loop query snorm oracle n i s = (Inr gs, si)"
    and raised: "raised_in_trial query snorm oracle n si e sf"
  shows "sample_sensitivity lambertw query snorm oracle n m gamma s = (Inl e, sf)"
proof -
  from raised have "trial query snorm oracle n si = (Inl e, sf)"
    by (simp add: trial_raises)
  with i before have "sampling_loop query snorm oracle n (nat (cfg_m c)) s = (Inl e, sf)"
    by (rule sampling_loop_fails)
  moreover from i have "\<not> cfg_m c < 0" by simp
  ultimately show ?thesis
    using cfg by (simp add: sample_sensitivity_def sensitivity_sampler_def)
qed

text \<open>Before its limit the exhaustible oracle answers as the concrete oracle does.\<close>

lemma exhausted_trial:
  "1 \<le> n \<Longrightarrow> i + 3 \<le> limit \<Longrightarrow>
     trial demo_query demo_norm (exhausted_oracle limit) n i =
       (Inr (1 / (real i + 2) - 1 / (real i + 3)), i + 3)"
proof -
  assume "1 \<le> n" "i + 3 \<le> limit"
  then have "trial demo_query demo_norm (exhausted_oracle limit) n i =
      trial demo_query demo_norm demo_oracle n i"
    by (simp add: trial_def exhausted_oracle_def demo_oracle_def)
  with \<open>1 \<le> n\<close> show ?thesis by (simp add: demo_trial)
qed

text \<open>
  Two trials with an oracle that raises from its fourth call on: the first trial returns,
  the first call of the second trial raises.
\<close>

theorem collaborator_error_propagates_witness:
  "sample_sensitivity lambertw_quarter demo_query demo_norm (exhausted_oracle 3) 2 (Some 2) None 0 =
     (Inl (Collaborator ()), 3)"
proof -
  have cfg: "sensitivity_sampler_config lambertw_quarter (Some 2) None =
     (Inr \<lparr>cfg_m = 2, cfg_gamma = gamma_lo (exp (- 7 / 4)) 2, cfg_k = 2,
          cfg_rho = exp (- 7 / 4)\<rparr> :: unit error + config)"
    by (rule config_quarter_m_only) simp
  have before: "sampling_loop demo_query demo_norm (exhausted_oracle 3) 2 1 0 = (Inr [1 / 6], 3)"
    by (simp add: exhausted_trial)
  have raised: "raised_in_trial demo_query demo_norm (exhausted_oracle 3) 2 3 (Collaborator ()) 3"
    by (simp add: raised_in_trial_def exhausted_oracle_def)
  show ?thesis
    by (rule collaborator_error_propagates [OF cfg _ before raised]) simp
qed

text \<open>
  Claim C8 as stated has the error wrapped with the index of the trial. A run that fails
  in its first trial and a run that fails in its second trial return the same error, the
  one the oracle raised: the error carries no trial index.
\<close>

theorem error_without_trial_index:
  "fst (sample_sensitivity lambertw_quarter demo_query demo_norm (exhausted_oracle 0) 2 (Some 2) None 0)
     = Inl (Collaborator ()) \<and>
   fst (sample_sensitivity lambertw_quarter demo_query demo_norm (exhausted_oracle 3) 2 (Some 2) None 0)
     = Inl (Collaborator ())"
  by (simp add: sample_sensitivity_def config_quarter_m_only sensitivity_sampler_def
      numeral_2_eq_2 exhausted_trial) (simp add: trial_def exhausted_oracle_def)

subsection \<open>Branch 1 of the Lambert W function\<close>

text \<open>
  A solution \<open>w\<close> of \<open>w * exp w = x\<close> for a real \<open>x\<close> has \<open>norm w * exp (Re w) = \<bar>x\<bar>\<close>; on
  branch 1 its norm exceeds \<open>1\<close> and the absolute value of its real part.
\<close>

lemma lambert_norm:
  assumes "w * exp w = complex_of_real x"
  shows "norm w * exp (Re w) = \<bar>x\<bar>"
proof -
  have "norm (w * exp w) = norm (complex_of_real x)" using assms by simp
  then show ?thesis by (simp add: norm_mult)
qed

lemma branch1_norm:
  assumes "lambertw_branch1 lambertw x"
  shows "1 < norm (lambertw x 1)" and "\<bar>Re (lambertw x 1)\<bar> < norm (lambertw x 1)"
    and "norm (lambertw x 1) * exp (Re (lambertw x 1)) = \<bar>x\<bar>"
proof -
  let ?w = "lambertw x 1"
  from assms have im: "2 * pi < Im ?w" and eq: "?w * exp ?w = complex_of_real x"
    by (simp_all add: lambertw_branch1_def)
  from im pi_ge_two have "1 < \<bar>Im ?w\<bar>" by linarith
  with abs_Im_le_cmod [of ?w] show "1 < norm ?w" by linarith
  from im pi_ge_two have "0 < (Im ?w)\<^sup>2" by simp
  then have "(Re ?w)\<^sup>2 < (Re ?w)\<^sup>2 + (Im ?w)\<^sup>2" by simp
  then have "sqrt ((Re ?w)\<^sup>2) < sqrt ((Re ?w)\<^sup>2 + (Im ?w)\<^sup>2)"
    by (simp only: real_sqrt_less_iff)
  then show "\<bar>Re ?w\<bar> < norm ?w" by (simp add: cmod_def)
  from eq show "norm ?w * exp (Re ?w) = \<bar>x\<bar>" by (rule lambert_norm)
qed

text \<open>On branch 1, \<open>exp (Re w)\<close> is below the absolute value of the argument.\<close>

lemma branch1_exp_Re:
  assumes "lambertw_branch1 lambertw x" and "x \<noteq> 0"
  shows "exp (Re (lambertw x 1)) < \<bar>x\<bar>"
proof -
  let ?w = "lambertw x 1"
  from branch1_norm [OF assms(1)] have n: "1 < norm ?w" and eq: "norm ?w * exp (Re ?w) = \<bar>x\<bar>"
    by simp_all
  have "1 * exp (Re ?w) < norm ?w * exp (Re ?w)"
    using n by (intro mult_strict_right_mono) simp_all
  with eq show ?thesis by simp
qed


subsection \<open>The order-statistic index\<close>

lemma gamma_lo_ge: "0 \<le> ln (1 / rho) / (2 * real_of_int m) \<Longrightarrow> rho \<le> gamma_lo rho m"
  by (simp add: gamma_lo_def)

lemma k_ge_one:
  assumes "1 \<le> m" and "0 < rho" and "g < 1" and "0 \<le> ln (1 / rho) / (2 * real_of_int m)"
  shows "1 \<le> \<lceil>real_of_int m * (1 - g + gamma_lo rho m)\<rceil>"
proof -
  from assms(1) have "0 < real_of_int m" by simp
  moreover from assms gamma_lo_ge [of rho m] have "0 < 1 - g + gamma_lo rho m" by linarith
  ultimately have "0 < real_of_int m * (1 - g + gamma_lo rho m)"
    by (rule mult_pos_pos)
  then have "0 < \<lceil>real_of_int m * (1 - g + gamma_lo rho m)\<rceil>"
    by (simp only: zero_less_ceiling)
  then show ?thesis by simp
qed

lemma k_le_m_iff:
  assumes "1 \<le> m"
  shows "\<lceil>real_of_int m * (1 - g + gamma_lo rho m)\<rceil> \<le> m \<longleftrightarrow> gamma_lo rho m \<le> g"
proof -
  from assms have m: "0 < real_of_int m" by simp
  have "\<lceil>real_of_int m * (1 - g + gamma_lo rho m)\<rceil> \<le> m \<longleftrightarrow>
      real_of_int m * (1 - g + gamma_lo rho m) \<le> real_of_int m * 1"
    by (simp add: ceiling_le_iff)
  also have "\<dots> \<longleftrightarrow> 1 - g + gamma_lo rho m \<le> 1"
    using m by (simp only: mult_le_cancel_left_pos)
  also have "\<dots> \<longleftrightarrow> gamma_lo rho m \<le> g" by linarith
  finally show ?thesis .
qed

lemma k_antimono:
  assumes "1 \<le> m" and "g1 \<le> g2"
  shows "\<lceil>real_of_int m * (1 - g2 + gamma_lo rho m)\<rceil>
           \<le> \<lceil>real_of_int m * (1 - g1 + gamma_lo rho m)\<rceil>"
proof (rule ceiling_mono)
  from assms(1) have "0 \<le> real_of_int m" by simp
  moreover from assms(2) have "1 - g2 + gamma_lo rho m \<le> 1 - g1 + gamma_lo rho m" by simp
  ultimately show "real_of_int m * (1 - g2 + gamma_lo rho m)
      \<le> real_of_int m * (1 - g1 + gamma_lo rho m)"
    by (rule mult_left_mono [rotated])
qed

subsection \<open>The calibrator with \<open>gamma\<close> alone\<close>

lemma config_gamma_only:
  assumes rho: "rho = exp (Re (lambertw (- g / (2 * exp (1 / 2))) 1) + 1 / 2)"
    and "rho < g" and "rho < 1"
  shows "sensitivity_sampler_config lambertw None (Some g) =
      Inr \<lparr>cfg_m = \<lceil>ln (1 / rho) / (2 * (g - rho)\<^sup>2)\<rceil>, cfg_gamma = g,
           cfg_k = \<lceil>real_of_int \<lceil>ln (1 / rho) / (2 * (g - rho)\<^sup>2)\<rceil> *
                     (1 - g + gamma_lo rho \<lceil>ln (1 / rho) / (2 * (g - rho)\<^sup>2)\<rceil>)\<rceil>,
           cfg_rho = rho\<rparr>"
    and "1 \<le> \<lceil>ln (1 / rho) / (2 * (g - rho)\<^sup>2)\<rceil>"
    and "gamma_lo rho \<lceil>ln (1 / rho) / (2 * (g - rho)\<^sup>2)\<rceil> \<le> g"
proof -
  let ?L = "ln (1 / rho)" and ?d = "2 * (g - rho)\<^sup>2"
  let ?m = "\<lceil>?L / ?d\<rceil>"
  have pos: "0 < rho" by (simp add: rho)
  with \<open>rho < 1\<close> have L: "0 < ?L" by simp
  from \<open>rho < g\<close> have d: "0 < ?d" by simp
  from L d have q: "0 < ?L / ?d" by (rule divide_pos_pos)
  then have mpos: "0 < ?m" by (simp only: zero_less_ceiling)
  then show m: "1 \<le> ?m" by linarith
  then have rm: "0 < real_of_int ?m" by simp
  with L have fin: "\<not> ?L / (2 * real_of_int ?m) < 0"
    by (simp add: not_less)
  from mpos have ne: "?m \<noteq> 0" by linarith
  from d ne fin show "sensitivity_sampler_config lambertw None (Some g) =
      Inr \<lparr>cfg_m = ?m, cfg_gamma = g,
           cfg_k = \<lceil>real_of_int ?m * (1 - g + gamma_lo rho ?m)\<rceil>, cfg_rho = rho\<rparr>"
    unfolding rho sensitivity_sampler_config_def Let_def
    by (simp add: not_less)
  have "?L / ?d \<le> real_of_int ?m" by (rule le_of_int_ceiling)
  with d have "?L \<le> real_of_int ?m * ?d"
    by (simp only: pos_divide_le_eq)
  then have "?L \<le> (g - rho)\<^sup>2 * (2 * real_of_int ?m)"
    by (simp only: mult.commute mult.left_commute)
  moreover from rm have "0 < 2 * real_of_int ?m" by simp
  ultimately have "?L / (2 * real_of_int ?m) \<le> (g - rho)\<^sup>2"
    by (simp only: pos_divide_le_eq)
  moreover from \<open>rho < g\<close> have "0 \<le> g - rho" by simp
  ultimately have "sqrt (?L / (2 * real_of_int ?m)) \<le> g - rho"
    by (intro real_le_lsqrt)
  then show "gamma_lo rho ?m \<le> g" by (simp add: gamma_lo_def)
qed


subsection \<open>The calibrator on branch 1\<close>

lemma branch1_rho_gamma:
  assumes H: "lambertw_branch1 lambertw (- g / (2 * exp (1 / 2)))" and g: "0 < g"
  shows "exp (Re (lambertw (- g / (2 * exp (1 / 2))) 1) + 1 / 2) < g / 2"
proof -
  let ?x = "- g / (2 * exp (1 / 2) :: real)"
  have e: "0 < exp (1 / 2 :: real)" by simp
  from g e have x: "?x \<noteq> 0" by simp
  have ax: "\<bar>?x\<bar> = g / (2 * exp (1 / 2))"
    using g e by (simp add: abs_mult)
  from branch1_exp_Re [OF H x] ax
  have "exp (Re (lambertw ?x 1)) < g / (2 * exp (1 / 2))" by simp
  then have "exp (Re (lambertw ?x 1)) * exp (1 / 2) < g / (2 * exp (1 / 2)) * exp (1 / 2)"
    using e by (simp only: mult_strict_right_mono)
  also have "g / (2 * exp (1 / 2)) * exp (1 / 2) = g / 2"
    by simp
  finally show ?thesis by (simp only: exp_add)
qed

lemma branch1_rho_m:
  assumes H: "lambertw_branch1 lambertw (- 1 / (4 * real_of_int m))" and m: "1 \<le> m"
  shows "exp (Re (lambertw (- 1 / (4 * real_of_int m)) 1) / 2) < 1"
proof -
  let ?x = "- 1 / (4 * real_of_int m)"
  from m have rm: "1 \<le> real_of_int m" by simp
  then have x: "?x \<noteq> 0" by simp
  from rm have "1 / (4 * real_of_int m) \<le> 1 / (4 * 1)"
    by (intro divide_left_mono) simp_all
  moreover from rm have "\<bar>?x\<bar> = 1 / (4 * real_of_int m)" by simp
  ultimately have "\<bar>?x\<bar> < 1" by linarith
  with branch1_exp_Re [OF H x] have "exp (Re (lambertw ?x 1)) < 1" by linarith
  then have "exp (Re (lambertw ?x 1)) < exp 0" by (simp only: exp_zero)
  then have "Re (lambertw ?x 1) < 0" by (simp only: exp_less_cancel_iff)
  then have "Re (lambertw ?x 1) / 2 < 0" by simp
  then have "exp (Re (lambertw ?x 1) / 2) < exp 0" by (simp only: exp_less_cancel_iff)
  then show ?thesis by (simp only: exp_zero)
qed

lemma finite_of_rho_lt_1:
  assumes "0 < rho" "rho < 1" "1 \<le> m"
  shows "0 \<le> ln (1 / rho) / (2 * real_of_int m)"
proof -
  from assms(1,2) have "0 < ln (1 / rho)" by simp
  moreover from assms(3) have "0 < 2 * real_of_int m" by simp
  ultimately show ?thesis by simp
qed


subsection \<open>A value of branch 1 in closed form\<close>

text \<open>
  \<open>w = - 9 pi / 4 + (9 pi / 4) i\<close> solves \<open>w * exp w = x\<close> for the argument \<open>x\<close> that the
  calibrator passes for \<open>gamma_on_curve\<close>, a confidence level of about \<open>0.028\<close>.
\<close>

lemma cos_sin_9_pi_4: "cos (9 * pi / 4) = sqrt 2 / 2" "sin (9 * pi / 4) = sqrt 2 / 2"
proof -
  have "9 * pi / 4 = pi / 4 + 2 * pi" by simp
  then show "cos (9 * pi / 4) = sqrt 2 / 2" "sin (9 * pi / 4) = sqrt 2 / 2"
    by (simp_all only: cos_periodic sin_periodic cos_45 sin_45)
qed

lemma exp_on_curve:
  "exp (Complex (- (9 * pi / 4)) (9 * pi / 4)) =
     Complex (exp (- (9 * pi / 4)) * (sqrt 2 / 2)) (exp (- (9 * pi / 4)) * (sqrt 2 / 2))"
  by (rule complex_eqI) (simp_all add: Re_exp Im_exp cos_sin_9_pi_4)

lemma argument_on_curve:
  "- gamma_on_curve / (2 * exp (1 / 2)) = - (9 * pi * sqrt 2 / 4) * exp (- (9 * pi / 4))"
proof -
  have "exp (1 / 2 - 9 * pi / 4) = exp (1 / 2) * exp (- (9 * pi / 4) :: real)"
    by (simp only: exp_add [symmetric]) simp
  then show ?thesis
    by (simp add: gamma_on_curve_def)
qed

lemma on_curve_branch1:
  "lambertw_branch1 lambertw_on_curve (- gamma_on_curve / (2 * exp (1 / 2)))"
proof -
  have "Complex (- (9 * pi / 4)) (9 * pi / 4) * exp (Complex (- (9 * pi / 4)) (9 * pi / 4)) =
      complex_of_real (- (9 * pi * sqrt 2 / 4) * exp (- (9 * pi / 4)))"
    unfolding exp_on_curve by (rule complex_eqI) (simp_all add: algebra_simps)
  moreover have "2 * pi < 9 * pi / 4" "9 * pi / 4 < 3 * pi"
    using pi_gt_zero by simp_all
  ultimately show ?thesis
    unfolding lambertw_branch1_def lambertw_on_curve_def argument_on_curve by simp
qed

lemma exp_neg_4: "exp (- 4 :: real) \<le> (4 / 5) ^ 16"
proof -
  have "1 + (1 / 4 :: real) \<le> exp (1 / 4)" by (rule exp_ge_add_one_self)
  then have "(5 / 4 :: real) ^ 16 \<le> exp (1 / 4) ^ 16"
    by (intro power_mono) simp_all
  also have "exp (1 / 4 :: real) ^ 16 = exp 4"
    by (simp add: exp_of_nat_mult [symmetric])
  finally have "inverse (exp (4 :: real)) \<le> inverse ((5 / 4) ^ 16)"
    by (intro le_imp_inverse_le) simp_all
  then show ?thesis by (simp add: exp_minus power_divide)
qed

lemma gamma_on_curve_range: "0 < gamma_on_curve" "gamma_on_curve < 1"
proof -
  show "0 < gamma_on_curve"
    by (simp add: gamma_on_curve_def)
  have s: "sqrt 2 \<le> 3 / 2" by (rule real_le_lsqrt) (simp_all add: power2_eq_square)
  have "0 \<le> sqrt 2" by simp
  have "9 * pi * sqrt 2 / 2 \<le> 9 * 4 * (3 / 2) / 2"
    using pi_less_4 s pi_ge_zero
    by (intro divide_right_mono mult_mono) simp_all
  then have a: "9 * pi * sqrt 2 / 2 \<le> 27" by simp
  have "1 / 2 - 9 * pi / 4 \<le> - 4" using pi_ge_two by simp
  then have "exp (1 / 2 - 9 * pi / 4) \<le> exp (- 4 :: real)"
    by (simp only: exp_le_cancel_iff)
  with exp_neg_4 have b: "exp (1 / 2 - 9 * pi / 4) \<le> (4 / 5) ^ 16" by linarith
  have "gamma_on_curve \<le> 27 * (4 / 5) ^ 16"
    unfolding gamma_on_curve_def using a b
    by (intro mult_mono) simp_all
  also have "27 * (4 / 5) ^ 16 < (1 :: real)"
    by (simp add: power_divide)
  finally show "gamma_on_curve < 1" .
qed

subsection \<open>The ranges of \<open>k\<close> and \<open>rho\<close>\<close>

text \<open>
  Claim C4, as amended. Let the input be valid: \<open>m\<close> a positive integer or absent, \<open>gamma\<close> in
  \<open>(0, 1)\<close> or absent, at least one present; and let \<^verbatim>\<open>lambertw\<close> return, at the argument
  the calibrator passes, the solution on branch 1. Then the calibrator returns a
  configuration with \<open>m \<ge> 1\<close>, \<open>k \<ge> 1\<close> and \<open>0 < rho < 1\<close>. When only one of \<open>m\<close> and \<open>gamma\<close>
  is given, \<open>k \<le> m\<close>. When both are given, \<open>k \<le> m\<close> holds exactly when
  \<open>gamma_lo \<le> gamma\<close>, for \<open>gamma_lo = rho + sqrt (ln (1 / rho) / (2 * m))\<close>.
\<close>

theorem calibrator_ranges:
  assumes valid_m: "case m of None \<Rightarrow> True | Some m' \<Rightarrow> 1 \<le> m'"
    and valid_gamma: "case gamma of None \<Rightarrow> True | Some g \<Rightarrow> 0 < g \<and> g < 1"
    and present: "m \<noteq> None \<or> gamma \<noteq> None"
    and H: "lambertw_branch1 lambertw (lambertw_argument m gamma)"
  shows "\<exists>c. sensitivity_sampler_config lambertw m gamma = Inr c \<and>
           1 \<le> cfg_m c \<and> 1 \<le> cfg_k c \<and> 0 < cfg_rho c \<and> cfg_rho c < 1 \<and>
           (m = None \<or> gamma = None \<longrightarrow> cfg_k c \<le> cfg_m c) \<and>
           (m \<noteq> None \<and> gamma \<noteq> None \<longrightarrow>
              (cfg_k c \<le> cfg_m c \<longleftrightarrow> gamma_lo (cfg_rho c) (cfg_m c) \<le> cfg_gamma c))"
proof (cases m)
  case None
  with present obtain g where gamma: "gamma = Some g" by auto
  with valid_gamma have g: "0 < g" "g < 1" by simp_all
  define rho where "rho = exp (Re (lambertw (- g / (2 * exp (1 / 2))) 1) + 1 / 2)"
  from H None gamma have "lambertw_branch1 lambertw (- g / (2 * exp (1 / 2)))"
    by (simp add: lambertw_argument_def)
  from branch1_rho_gamma [OF this g(1)] have "rho < g / 2"
    by (simp add: rho_def)
  with g have lt: "rho < g" "rho < 1" by simp_all
  have pos: "0 < rho" by (simp add: rho_def)
  let ?m = "\<lceil>ln (1 / rho) / (2 * (g - rho)\<^sup>2)\<rceil>"
  note cfg = config_gamma_only [where lambertw = lambertw and g = g and rho = rho, OF rho_def lt]
  from cfg(2) pos lt(2) have fin: "0 \<le> ln (1 / rho) / (2 * real_of_int ?m)"
    by (intro finite_of_rho_lt_1)
  from cfg(2) pos g(2) fin have k1: "1 \<le> \<lceil>real_of_int ?m * (1 - g + gamma_lo rho ?m)\<rceil>"
    by (rule k_ge_one)
  from cfg(2,3) have km: "\<lceil>real_of_int ?m * (1 - g + gamma_lo rho ?m)\<rceil> \<le> ?m"
    by (simp only: k_le_m_iff)
  show ?thesis
    unfolding None gamma cfg(1) using cfg(2) k1 km pos lt(2) by simp
next
  case (Some m')
  with valid_m have m': "1 \<le> m'" by simp
  define rho where "rho = exp (Re (lambertw (- 1 / (4 * real_of_int m')) 1) / 2)"
  from H Some have "lambertw_branch1 lambertw (- 1 / (4 * real_of_int m'))"
    by (simp add: lambertw_argument_def)
  from branch1_rho_m [OF this m'] have lt: "rho < 1" by (simp add: rho_def)
  have pos: "0 < rho" by (simp add: rho_def)
  from pos lt m' have fin: "0 \<le> ln (1 / rho) / (2 * real_of_int m')"
    by (rule finite_of_rho_lt_1)
  from m' have ne: "m' \<noteq> 0" by simp
  show ?thesis
  proof (cases gamma)
    case None
    show ?thesis
      unfolding Some None
        config_m_only [where lambertw = lambertw and m = m' and rho = rho, OF ne rho_def fin]
      using m' pos lt by simp
  next
    case gamma: (Some g)
    with valid_gamma have g: "0 < g" "g < 1" by simp_all
    from m' pos g(2) fin have k1: "1 \<le> \<lceil>real_of_int m' * (1 - g + gamma_lo rho m')\<rceil>"
      by (rule k_ge_one)
    show ?thesis
      unfolding Some gamma
        config_both [where lambertw = lambertw and m = m' and rho = rho, OF ne rho_def fin]
      using m' pos lt k1 k_le_m_iff [OF m', of g rho] by simp
  qed
qed

text \<open>
  The input \<open>gamma = gamma_on_curve\<close>, \<open>m\<close> absent, with the value of branch 1 at the
  argument the calibrator passes.
\<close>

theorem calibrator_ranges_witness:
  "\<exists>c. sensitivity_sampler_config lambertw_on_curve None (Some gamma_on_curve) = Inr c \<and>
     1 \<le> cfg_m c \<and> 1 \<le> cfg_k c \<and> 0 < cfg_rho c \<and> cfg_rho c < 1 \<and> cfg_k c \<le> cfg_m c"
proof -
  have "lambertw_branch1 lambertw_on_curve (lambertw_argument None (Some gamma_on_curve))"
    using on_curve_branch1 by (simp add: lambertw_argument_def)
  from calibrator_ranges [of None "Some gamma_on_curve" lambertw_on_curve, OF _ _ _ this]
    gamma_on_curve_range
  show ?thesis by simp
qed

subsection \<open>The calibrator for every value of the Lambert W function\<close>

lemma ln_2_ge_half: "1 / 2 \<le> ln (2 :: real)"
proof -
  have "exp (1 / 2 :: real) \<le> 1 + 1 / 2 + (1 / 2)\<^sup>2"
    by (rule exp_bound) simp_all
  also have "\<dots> \<le> 2" by (simp add: power2_eq_square)
  finally have "exp (1 / 2 :: real) \<le> 2" .
  moreover have "1 / 2 \<le> ln (2 :: real) \<longleftrightarrow> exp (1 / 2 :: real) \<le> 2"
    by (rule ln_ge_iff) simp
  ultimately show ?thesis by (simp only:)
qed

lemma gamma_lo_1_gt_half:
  assumes "0 < rho" and fin: "0 \<le> ln (1 / rho) / (2 * real_of_int 1)"
  shows "1 / 2 < gamma_lo rho 1"
proof (cases "rho \<le> 1 / 2")
  case False
  with gamma_lo_ge [OF fin] show ?thesis by linarith
next
  case True
  with \<open>0 < rho\<close> have "2 \<le> 1 / rho"
    by (simp add: pos_le_divide_eq)
  then have "ln 2 \<le> ln (1 / rho)"
    by (subst ln_le_cancel_iff) (use \<open>0 < rho\<close> in simp_all)
  with ln_2_ge_half have "(1 / 2)\<^sup>2 \<le> ln (1 / rho) / 2"
    by (simp add: power2_eq_square)
  then have "1 / 2 \<le> sqrt (ln (1 / rho) / 2)"
    by (intro real_le_rsqrt)
  with \<open>0 < rho\<close> show ?thesis by (simp add: gamma_lo_def)
qed

lemma config_both_Inr:
  assumes "m \<noteq> 0"
    and "sensitivity_sampler_config lambertw (Some m) (Some g) = Inr c"
  shows "0 \<le> ln (1 / exp (Re (lambertw (- 1 / (4 * real_of_int m)) 1) / 2)) / (2 * real_of_int m)"
    and "c = \<lparr>cfg_m = m, cfg_gamma = g,
          cfg_k = \<lceil>real_of_int m * (1 - g +
             gamma_lo (exp (Re (lambertw (- 1 / (4 * real_of_int m)) 1) / 2)) m)\<rceil>,
          cfg_rho = exp (Re (lambertw (- 1 / (4 * real_of_int m)) 1) / 2)\<rparr>"
  using assms
  by (simp_all add: sensitivity_sampler_config_def Let_def not_less [symmetric] split: if_splits)

text \<open>
  With \<open>m = 1\<close> and \<open>gamma = 1/2\<close> the calibrator returns the index \<open>2\<close> at least, whatever
  the value of \<^verbatim>\<open>lambertw\<close>.
\<close>

lemma config_m_gamma_any:
  assumes "sensitivity_sampler_config lambertw (Some 1) (Some (1 / 2)) = Inr c"
  shows "cfg_m c = 1" and "2 \<le> cfg_k c"
proof -
  let ?rho = "exp (Re (lambertw (- 1 / (4 * real_of_int 1)) 1) / 2)"
  note r = config_both_Inr [where lambertw = lambertw and m = 1, OF _ assms]
  from r(2) show "cfg_m c = 1" by simp
  have "0 < ?rho" by simp
  from gamma_lo_1_gt_half [OF this] r(1) have "1 / 2 < gamma_lo ?rho 1" by simp
  then have "real_of_int 1 < real_of_int 1 * (1 - 1 / 2 + gamma_lo ?rho 1)" by simp
  then have "1 < \<lceil>real_of_int 1 * (1 - 1 / 2 + gamma_lo ?rho 1)\<rceil>"
    by (simp only: less_ceiling_iff)
  with r(2) show "2 \<le> cfg_k c" by simp
qed

text \<open>With \<open>m\<close> alone the calibrator returns \<open>k = m\<close>, whatever the value of \<^verbatim>\<open>lambertw\<close>.\<close>

lemma config_m_only_any:
  assumes "sensitivity_sampler_config lambertw (Some m) None = Inr c"
  shows "cfg_m c = m" and "cfg_k c = m"
  using assms
  by (auto simp: sensitivity_sampler_config_def Let_def split: if_splits)

text \<open>
  Claim C4 as stated fails at the valid input \<open>m = 1\<close>, \<open>gamma = 1/2\<close>: whatever
  \<^verbatim>\<open>lambertw\<close> returns, the calibrator does not return a configuration within the
  claimed ranges (the index it returns is \<open>2\<close> at least, and \<open>m\<close> is \<open>1\<close>).
\<close>

theorem k_exceeds_m:
  "\<not> (\<exists>lambertw c.
        sensitivity_sampler_config lambertw (Some 1) (Some (1 / 2)) = (Inr c :: unit error + config) \<and>
        1 \<le> cfg_k c \<and> cfg_k c \<le> cfg_m c \<and> 0 < cfg_rho c \<and> cfg_rho c < 1)"
proof
  assume "\<exists>lambertw c.
        sensitivity_sampler_config lambertw (Some 1) (Some (1 / 2)) = (Inr c :: unit error + config) \<and>
        1 \<le> cfg_k c \<and> cfg_k c \<le> cfg_m c \<and> 0 < cfg_rho c \<and> cfg_rho c < 1"
  then obtain lambertw c where
      c: "sensitivity_sampler_config lambertw (Some 1) (Some (1 / 2)) = (Inr c :: unit error + config)"
      and k: "cfg_k c \<le> cfg_m c"
    by blast
  from config_m_gamma_any [OF c] k show False by simp
qed

subsection \<open>The index as the confidence level grows\<close>

text \<open>
  Claim C9, amended. Let \<open>m \<ge> 1\<close> be given and fixed, let \<open>0 < gamma1 < gamma2 < 1\<close>, and
  let the calibrator return a configuration for \<open>gamma1\<close>. Then it returns one for
  \<open>gamma2\<close>, with the same \<open>m\<close>; the index for \<open>gamma2\<close> is at most the index for \<open>gamma1\<close>
  and at least \<open>1\<close>. The index for \<open>gamma2\<close> is at most \<open>m\<close> on the condition that the index
  for \<open>gamma1\<close> is: raising \<open>gamma\<close> keeps an index that is within \<open>1\<close> and \<open>m\<close> there, and
  does not bring one that exceeds \<open>m\<close> back below it in general.
\<close>

theorem k_antitone_in_gamma:
  assumes m: "1 \<le> m" and g: "0 < g1" "g1 < g2" "g2 < 1"
    and c1: "sensitivity_sampler_config lambertw (Some m) (Some g1) = (Inr c1 :: 'x error + config)"
  shows "\<exists>c2. sensitivity_sampler_config lambertw (Some m) (Some g2) = (Inr c2 :: 'x error + config) \<and>
           cfg_m c1 = m \<and> cfg_m c2 = m \<and> 1 \<le> cfg_k c2 \<and> cfg_k c2 \<le> cfg_k c1 \<and>
           (cfg_k c1 \<le> m \<longrightarrow> cfg_k c2 \<le> m)"
proof -
  define rho where "rho = exp (Re (lambertw (- 1 / (4 * real_of_int m)) 1) / 2)"
  from m have ne: "m \<noteq> 0" by simp
  note r = config_both_Inr [where lambertw = lambertw and m = m, OF ne c1, folded rho_def]
  have pos: "0 < rho" by (simp add: rho_def)
  have c2: "sensitivity_sampler_config lambertw (Some m) (Some g2) =
      (Inr \<lparr>cfg_m = m, cfg_gamma = g2,
           cfg_k = \<lceil>real_of_int m * (1 - g2 + gamma_lo rho m)\<rceil>, cfg_rho = rho\<rparr>
        :: 'x error + config)"
    using ne rho_def r(1) by (rule config_both)
  from m pos g(3) r(1) have k1: "1 \<le> \<lceil>real_of_int m * (1 - g2 + gamma_lo rho m)\<rceil>"
    by (rule k_ge_one)
  from g(2) have "g1 \<le> g2" by simp
  with m have mono: "\<lceil>real_of_int m * (1 - g2 + gamma_lo rho m)\<rceil>
      \<le> \<lceil>real_of_int m * (1 - g1 + gamma_lo rho m)\<rceil>"
    by (rule k_antimono)
  show ?thesis
    unfolding c2 r(2) using k1 mono by simp
qed

text \<open>
  \<open>m = 10\<close> with \<open>gamma = 1/2\<close>, for which the index is \<open>10\<close>, and \<open>gamma = 9/10\<close>.
\<close>

lemma exp_neg_3: "1 / 27 \<le> exp (- 3 :: real)" "exp (- 3 :: real) \<le> (8 / 11) ^ 8"
proof -
  have "exp (1 :: real) \<le> 1 + 1 + 1\<^sup>2" by (rule exp_bound) simp_all
  then have "exp (1 :: real) ^ 3 \<le> 3 ^ 3" by (intro power_mono) simp_all
  moreover have "exp (1 :: real) ^ 3 = exp 3"
    by (simp add: exp_of_nat_mult [symmetric])
  ultimately have "exp (3 :: real) \<le> 27" by simp
  then have "inverse 27 \<le> inverse (exp (3 :: real))"
    by (intro le_imp_inverse_le) simp_all
  then show "1 / 27 \<le> exp (- 3 :: real)" by (simp add: exp_minus)
  have "1 + (3 / 8 :: real) \<le> exp (3 / 8)" by (rule exp_ge_add_one_self)
  then have "(11 / 8 :: real) ^ 8 \<le> exp (3 / 8) ^ 8"
    by (intro power_mono) simp_all
  also have "exp (3 / 8 :: real) ^ 8 = exp 3"
    by (simp add: exp_of_nat_mult [symmetric])
  finally have "inverse (exp (3 :: real)) \<le> inverse ((11 / 8) ^ 8)"
    by (intro le_imp_inverse_le) simp_all
  then show "exp (- 3 :: real) \<le> (8 / 11) ^ 8" by (simp add: exp_minus power_divide)
qed

lemma sqrt_3_20: "19 / 50 < sqrt (3 / 20 :: real)" "sqrt (3 / 20 :: real) \<le> 2 / 5"
proof -
  show "19 / 50 < sqrt (3 / 20 :: real)"
    by (rule real_less_rsqrt) (simp add: power2_eq_square)
  show "sqrt (3 / 20 :: real) \<le> 2 / 5"
    by (rule real_le_lsqrt) (simp_all add: power2_eq_square)
qed

lemma gamma_lo_fortieth: "gamma_lo (exp (- 3)) 10 = exp (- 3) + sqrt (3 / 20)"
  by (simp add: gamma_lo_def ln_div)

lemma k_fortieth: "\<lceil>real_of_int 10 * (1 - 1 / 2 + gamma_lo (exp (- 3)) 10)\<rceil> = 10"
proof -
  have "(8 / 11 :: real) ^ 8 \<le> 1 / 10" by (simp add: power_divide)
  with exp_neg_3 sqrt_3_20
  have "9 / 10 < 1 - 1 / 2 + gamma_lo (exp (- 3)) 10" "1 - 1 / 2 + gamma_lo (exp (- 3)) 10 \<le> 1"
    unfolding gamma_lo_fortieth by linarith+
  then show ?thesis
    by (intro ceiling_unique) simp_all
qed

lemma config_fortieth:
  "sensitivity_sampler_config lambertw_fortieth (Some 10) (Some (1 / 2)) =
     Inr \<lparr>cfg_m = 10, cfg_gamma = 1 / 2, cfg_k = 10, cfg_rho = exp (- 3)\<rparr>"
proof -
  have "sensitivity_sampler_config lambertw_fortieth (Some 10) (Some (1 / 2)) =
     Inr \<lparr>cfg_m = 10, cfg_gamma = 1 / 2,
          cfg_k = \<lceil>real_of_int 10 * (1 - 1 / 2 + gamma_lo (exp (- 3)) 10)\<rceil>,
          cfg_rho = exp (- 3)\<rparr>"
    by (rule config_both) (simp_all add: lambertw_fortieth_def ln_div)
  then show ?thesis by (simp only: k_fortieth)
qed

theorem k_antitone_in_gamma_witness:
  "\<exists>c2. sensitivity_sampler_config lambertw_fortieth (Some 10) (Some (9 / 10)) =
          (Inr c2 :: unit error + config) \<and>
        cfg_m c2 = 10 \<and> 1 \<le> cfg_k c2 \<and> cfg_k c2 \<le> 10"
  using k_antitone_in_gamma [OF _ _ _ _ config_fortieth, of "9 / 10"] by simp

text \<open>
  Claim C9 as stated, without that condition, fails at \<open>m = 1\<close> with \<open>gamma1 = 1/4\<close> and
  \<open>gamma2 = 1/2\<close>. With the value \<open>lambertw_quarter\<close> the calibrator returns for both, and
  for \<open>gamma2\<close> the index is \<open>2\<close> with \<open>m = 1\<close>; whatever \<^verbatim>\<open>lambertw\<close> returns, the index
  for \<open>gamma2\<close> is not within the admissible range.
\<close>

theorem k_above_m_at_both_levels:
  "(\<exists>c1 c2. sensitivity_sampler_config lambertw_quarter (Some 1) (Some (1 / 4)) =
              (Inr c1 :: unit error + config) \<and>
            sensitivity_sampler_config lambertw_quarter (Some 1) (Some (1 / 2)) =
              (Inr c2 :: unit error + config) \<and>
            cfg_m c2 = 1 \<and> cfg_k c2 = 2) \<and>
   \<not> (\<exists>lambertw c1 c2.
         sensitivity_sampler_config lambertw (Some 1) (Some (1 / 4)) =
           (Inr c1 :: unit error + config) \<and>
         sensitivity_sampler_config lambertw (Some 1) (Some (1 / 2)) =
           (Inr c2 :: unit error + config) \<and>
         cfg_k c2 \<le> cfg_m c2)"
proof (intro conjI notI)
  have "sensitivity_sampler_config lambertw_quarter (Some 1) (Some (1 / 4)) =
     (Inr \<lparr>cfg_m = 1, cfg_gamma = 1 / 4,
          cfg_k = \<lceil>real_of_int 1 * (1 - 1 / 4 + gamma_lo (exp (- 7 / 4)) 1)\<rceil>,
          cfg_rho = exp (- 7 / 4)\<rparr> :: unit error + config)"
    by (rule config_both) (simp_all add: lambertw_quarter_def ln_div)
  with config_quarter_both [where ?'a = unit]
  show "\<exists>c1 c2. sensitivity_sampler_config lambertw_quarter (Some 1) (Some (1 / 4)) =
              (Inr c1 :: unit error + config) \<and>
            sensitivity_sampler_config lambertw_quarter (Some 1) (Some (1 / 2)) =
              (Inr c2 :: unit error + config) \<and>
            cfg_m c2 = 1 \<and> cfg_k c2 = 2"
    by simp
next
  assume "\<exists>lambertw c1 c2.
         sensitivity_sampler_config lambertw (Some 1) (Some (1 / 4)) =
           (Inr c1 :: unit error + config) \<and>
         sensitivity_sampler_config lambertw (Some 1) (Some (1 / 2)) =
           (Inr c2 :: unit error + config) \<and>
         cfg_k c2 \<le> cfg_m c2"
  then obtain lambertw c2 where
      c: "sensitivity_sampler_config lambertw (Some 1) (Some (1 / 2)) =
            (Inr c2 :: unit error + config)"
      and k: "cfg_k c2 \<le> cfg_m c2"
    by blast
  from config_m_gamma_any [OF c] k show False by simp
qed

subsection \<open>The branch of the Lambert W function\<close>

text \<open>
  For a real solution \<open>v\<close> of \<open>v * exp v = - gamma / (2 * exp (1/2))\<close>, as the lower branch
  gives, \<open>rho = exp (v + 1/2)\<close> solves \<open>rho * (1 - 2 * ln rho) = gamma\<close>.
\<close>

lemma real_branch_rho:
  assumes "v * exp v = - g / (2 * exp (1 / 2 :: real))"
  shows "exp (v + 1 / 2) * (1 - 2 * ln (exp (v + 1 / 2))) = g"
proof -
  have "exp (v + 1 / 2) * (1 - 2 * ln (exp (v + 1 / 2))) = exp (v + 1 / 2) * (- 2 * v)"
    by simp
  also have "\<dots> = - 2 * (v * exp v) * exp (1 / 2)"
    by (simp add: exp_add)
  also have "\<dots> = g" unfolding assms by simp
  finally show ?thesis .
qed

text \<open>On branch 1 the real part of the solution gives a \<open>rho\<close> that misses this equation.\<close>

lemma branch1_rho_equation:
  assumes H: "lambertw_branch1 lambertw (- g / (2 * exp (1 / 2)))" and g: "0 < g"
  shows "exp (Re (lambertw (- g / (2 * exp (1 / 2))) 1) + 1 / 2) *
           (1 - 2 * ln (exp (Re (lambertw (- g / (2 * exp (1 / 2))) 1) + 1 / 2))) < g"
proof -
  let ?x = "- g / (2 * exp (1 / 2) :: real)"
  let ?w = "lambertw ?x 1"
  have e: "0 < exp (1 / 2 :: real)" by simp
  have ax: "\<bar>?x\<bar> = g / (2 * exp (1 / 2))"
    using g e by (simp add: abs_mult)
  from branch1_norm [OF H]
  have lt: "\<bar>Re ?w\<bar> < norm ?w" and eq: "norm ?w * exp (Re ?w) = \<bar>?x\<bar>"
    by simp_all
  from lt have "- Re ?w < norm ?w" by linarith
  then have "- Re ?w * exp (Re ?w) < norm ?w * exp (Re ?w)"
    by (intro mult_strict_right_mono) simp_all
  with eq ax have "- Re ?w * exp (Re ?w) < g / (2 * exp (1 / 2))" by simp
  then have "- Re ?w * exp (Re ?w) * (2 * exp (1 / 2)) < g"
    using e by (simp add: pos_less_divide_eq)
  moreover have "exp (Re ?w + 1 / 2) * (1 - 2 * ln (exp (Re ?w + 1 / 2))) =
      exp (Re ?w + 1 / 2) * (- 2 * Re ?w)"
    by simp
  moreover have "exp (Re ?w + 1 / 2) * (- 2 * Re ?w) = - Re ?w * exp (Re ?w) * (2 * exp (1 / 2))"
    by (simp add: exp_add)
  ultimately show ?thesis by (simp only:)
qed

text \<open>
  Claim C1, where the code departs from it. The claim has the lower branch, of index
  \<open>-1\<close>, which is real on the arguments the calibrator passes; the code passes the index
  \<open>1\<close> and takes the real part of a value that is not real. For \<open>gamma\<close> in \<open>(0, 1)\<close>, \<open>m\<close>
  absent and \<^verbatim>\<open>lambertw\<close> returning the solution on branch 1, the calibrator returns a
  configuration whose \<open>rho\<close> is \<open>exp (Re w + 1/2)\<close> for that solution \<open>w\<close>; this \<open>rho\<close> has
  \<open>rho * (1 - 2 * ln rho) < gamma\<close>, and it differs from \<open>exp (v + 1/2)\<close> for every real
  solution \<open>v\<close> of \<open>v * exp v = - gamma / (2 * exp (1/2))\<close>, the value of the lower branch
  among them.
\<close>

theorem calibrator_rho_off_the_real_branches:
  assumes g: "0 < g" "g < 1"
    and H: "lambertw_branch1 lambertw (- g / (2 * exp (1 / 2)))"
  shows "\<exists>c. sensitivity_sampler_config lambertw None (Some g) = Inr c \<and>
           cfg_rho c = exp (Re (lambertw (- g / (2 * exp (1 / 2))) 1) + 1 / 2) \<and>
           cfg_rho c * (1 - 2 * ln (cfg_rho c)) < g \<and>
           (\<forall>v. v * exp v = - g / (2 * exp (1 / 2)) \<longrightarrow> cfg_rho c \<noteq> exp (v + 1 / 2))"
proof -
  define rho where "rho = exp (Re (lambertw (- g / (2 * exp (1 / 2))) 1) + 1 / 2)"
  from branch1_rho_gamma [OF H g(1)] have "rho < g / 2"
    by (simp add: rho_def)
  with g have lt: "rho < g" "rho < 1" by simp_all
  note cfg = config_gamma_only [where lambertw = lambertw and g = g and rho = rho, OF rho_def lt]
  from branch1_rho_equation [OF H g(1)] have less: "rho * (1 - 2 * ln rho) < g"
    by (simp only: rho_def)
  have "rho \<noteq> exp (v + 1 / 2)" if "v * exp v = - g / (2 * exp (1 / 2))" for v
  proof
    assume "rho = exp (v + 1 / 2)"
    with real_branch_rho [OF that] have "rho * (1 - 2 * ln rho) = g" by (simp only:)
    with less show False by simp
  qed
  with less show ?thesis
    unfolding cfg(1) by (simp add: rho_def)
qed

text \<open>The input \<open>gamma = gamma_on_curve\<close> with the value of branch 1 in closed form.\<close>

theorem calibrator_rho_off_the_real_branches_witness:
  "\<exists>c. sensitivity_sampler_config lambertw_on_curve None (Some gamma_on_curve) =
         (Inr c :: unit error + config) \<and>
     cfg_rho c = exp (1 / 2 - 9 * pi / 4) \<and>
     cfg_rho c * (1 - 2 * ln (cfg_rho c)) < gamma_on_curve"
proof -
  from calibrator_rho_off_the_real_branches [OF gamma_on_curve_range on_curve_branch1]
  obtain c where "sensitivity_sampler_config lambertw_on_curve None (Some gamma_on_curve) =
      (Inr c :: unit error + config)"
    and "cfg_rho c =
      exp (Re (lambertw_on_curve (- gamma_on_curve / (2 * exp (1 / 2))) 1) + 1 / 2)"
    and "cfg_rho c * (1 - 2 * ln (cfg_rho c)) < gamma_on_curve"
    by blast
  then show ?thesis
    by (intro exI [of _ c]) (simp add: lambertw_on_curve_def)
qed


subsection \<open>The federated average\<close>

text \<open>The shape of a list of arrays, and what it says of the sub-arrays.\<close>

lemma shape_Array:
  "shape (Array xs) = Some t \<longleftrightarrow>
     (xs = [] \<and> t = [0]) \<or>
     (xs \<noteq> [] \<and> (\<exists>s. t = length xs # s \<and> (\<forall>x\<in>set xs. shape x = Some s)))"
proof (cases xs)
  case Nil
  then show ?thesis by auto
next
  case (Cons x ys)
  then show ?thesis
    by (cases "shape x") (auto simp: list_all_iff)
qed


declare shape.simps(2) [simp del]

lemma shape_rows:
  assumes "shape c = Some (L # s)"
  shows "c = Array (rows c) \<and> length (rows c) = L \<and>
         (\<forall>x\<in>set (rows c). shape x = Some s)"
proof (cases c)
  case (Scalar x)
  with assms show ?thesis by simp
next
  case (Array xs)
  with assms show ?thesis by (auto simp: shape_Array)
qed

text \<open>An array has an entry at exactly the indices within its shape.\<close>

lemma item_defined:
  "shape a = Some s \<Longrightarrow> (item a p \<noteq> None) = list_all2 (<) p s"
proof (induction a arbitrary: p s)
  case (Scalar x)
  then show ?case by (cases p) auto
next
  case (Array xs)
  show ?case
  proof (cases p)
    case Nil
    with Array.prems show ?thesis by (auto simp: shape_Array)
  next
    case (Cons i q)
    show ?thesis
    proof (cases "i < length xs")
      case True
      then have ne: "xs \<noteq> []" by auto
      with Array.prems obtain s' where s: "s = length xs # s'"
        and all: "\<forall>x\<in>set xs. shape x = Some s'"
        by (auto simp: shape_Array)
      from True all have "shape (xs ! i) = Some s'" by simp
      with Array.IH [of "xs ! i" s' q] True
      have "(item (xs ! i) q \<noteq> None) = list_all2 (<) q s'" by simp
      with True Cons s show ?thesis by simp
    next
      case False
      with Array.prems Cons show ?thesis by (auto simp: shape_Array)
    qed
  qed
qed



lemma shape_Scalar_iff: "shape b = Some [] \<longleftrightarrow> (\<exists>y. b = Scalar y)"
  by (cases b) (auto simp: shape_Array)

text \<open>Sums, quotients and means of arrays of one shape, entry by entry.\<close>

lemma add_elementwise_Array:
  assumes "length ys = length xs"
  shows "add_elementwise (Array xs) (Array ys) =
           Array (map (\<lambda>i. add_elementwise (xs ! i) (ys ! i)) [0..<length xs])"
proof -
  have "map (\<lambda>(f, y). f y) (zip (map add_elementwise xs) ys) =
          map (\<lambda>i. add_elementwise (xs ! i) (ys ! i)) [0..<length xs]"
    using assms by (intro nth_equalityI) simp_all
  then show ?thesis by simp
qed

lemma add_elementwise_shape_item:
  "shape a = Some s \<Longrightarrow> shape b = Some s \<Longrightarrow>
     shape (add_elementwise a b) = Some s \<and>
     (\<forall>p. item (add_elementwise a b) p =
        (if list_all2 (<) p s then Some (the (item a p) + the (item b p)) else None))"
proof (induction a arbitrary: b s)
  case (Scalar x)
  then have "s = []" by simp
  with Scalar obtain y where b: "b = Scalar y" by (auto simp: shape_Scalar_iff)
  have "item (Scalar (x + y)) p =
          (if list_all2 (<) p [] then Some (the (item (Scalar x) p) + the (item (Scalar y) p))
           else None)" for p
    by (cases p) auto
  with b \<open>s = []\<close> show ?case by simp
next
  case (Array xs)
  show ?case
  proof (cases "xs = []")
    case True
    with Array.prems have s: "s = [0]" by (simp add: shape_Array)
    with Array.prems(2) obtain ys where b: "b = Array ys"
      by (cases b) auto
    with Array.prems(2) s have "ys = []" by (auto simp: shape_Array)
    have "item (Array []) p = None" for p by (cases p) auto
    moreover have "\<not> list_all2 (<) p [0::nat]" for p :: "nat list"
      by (auto simp: list_all2_Cons2)
    ultimately show ?thesis using True b \<open>ys = []\<close> s by (simp add: shape_Array)
  next
    case False
    with Array.prems(1) obtain s' where s: "s = length xs # s'"
      and xs: "\<forall>x\<in>set xs. shape x = Some s'"
      by (auto simp: shape_Array)
    from Array.prems(2) s obtain ys where b: "b = Array ys"
      by (cases b) auto
    from Array.prems(2) s b False have len: "length ys = length xs"
      and ys: "\<forall>y\<in>set ys. shape y = Some s'"
      by (auto simp: shape_Array)
    let ?zs = "map (\<lambda>i. add_elementwise (xs ! i) (ys ! i)) [0..<length xs]"
    have eq: "add_elementwise (Array xs) b = Array ?zs"
      using b len by (simp only: add_elementwise_Array)
    have IH: "shape (add_elementwise (xs ! i) (ys ! i)) = Some s' \<and>
              (\<forall>p. item (add_elementwise (xs ! i) (ys ! i)) p =
                 (if list_all2 (<) p s'
                  then Some (the (item (xs ! i) p) + the (item (ys ! i) p)) else None))"
      if "i < length xs" for i
    proof (rule Array.IH)
      show "xs ! i \<in> set xs" using that by simp
      show "shape (xs ! i) = Some s'" using that xs by simp
      show "shape (ys ! i) = Some s'" using that ys len by simp
    qed
    have sh: "shape (Array ?zs) = Some s"
      using False s IH by (auto simp: shape_Array)
    have it: "item (Array ?zs) p =
          (if list_all2 (<) p s then Some (the (item (Array xs) p) + the (item b p)) else None)"
      for p
    proof (cases p)
      case Nil
      with s show ?thesis by simp
    next
      case (Cons i q)
      show ?thesis
      proof (cases "i < length xs")
        case True
        with IH [of i] Cons s b len show ?thesis by simp
      next
        case False
        with Cons s show ?thesis by simp
      qed
    qed
    from eq sh it show ?thesis by simp
  qed
qed

lemma true_divide_shape: "shape (true_divide a c) = shape a"
proof (induction a)
  case (Scalar x)
  show ?case by simp
next
  case (Array xs)
  then have "map shape (map (\<lambda>a. true_divide a c) xs) = map shape xs" by simp
  then show ?case by (simp only: true_divide.simps shape.simps(2) length_map)
qed

lemma true_divide_item:
  "item (true_divide a c) p = map_option (\<lambda>x. x / c) (item a p)"
proof (induction a arbitrary: p)
  case (Scalar x)
  show ?case by (cases p) auto
next
  case (Array xs)
  show ?case
  proof (cases p)
    case Nil
    then show ?thesis by simp
  next
    case (Cons i q)
    with Array.IH [of "xs ! i" q] show ?thesis by simp
  qed
qed

lemma foldl_add_elementwise:
  "shape r = Some s \<Longrightarrow> \<forall>x\<in>set rs. shape x = Some s \<Longrightarrow>
     shape (foldl add_elementwise r rs) = Some s \<and>
     (\<forall>p. item (foldl add_elementwise r rs) p =
        (if list_all2 (<) p s then Some (the (item r p) + (\<Sum>x\<leftarrow>rs. the (item x p)))
         else None))"
proof (induction rs arbitrary: r)
  case Nil
  have "item r p =
          (if list_all2 (<) p s then Some (the (item r p) + (\<Sum>x\<leftarrow>[]. the (item x p)))
           else None)" for p
  proof (cases "list_all2 (<) p s")
    case True
    with item_defined [OF Nil(1), of p] have "item r p \<noteq> None" by simp
    with True show ?thesis by auto
  next
    case False
    with item_defined [OF Nil(1), of p] have "item r p = None" by simp
    with False show ?thesis by simp
  qed
  with Nil(1) show ?case by (simp only: foldl.simps) simp
next
  case (Cons x rs)
  from Cons.prems have x: "shape x = Some s" by simp
  note ax = add_elementwise_shape_item [OF Cons.prems(1) x]
  from ax have "shape (add_elementwise r x) = Some s" by simp
  moreover from Cons.prems have "\<forall>y\<in>set rs. shape y = Some s" by simp
  ultimately have IH: "shape (foldl add_elementwise (add_elementwise r x) rs) = Some s \<and>
     (\<forall>p. item (foldl add_elementwise (add_elementwise r x) rs) p =
        (if list_all2 (<) p s
         then Some (the (item (add_elementwise r x) p) + (\<Sum>y\<leftarrow>rs. the (item y p)))
         else None))"
    by (rule Cons.IH)
  with ax show ?case by simp
qed

lemma arithmetic_mean_rows:
  assumes "rs \<noteq> []" and "\<forall>x\<in>set rs. shape x = Some s"
  shows "arithmetic_mean (map (\<lambda>x. item x p) rs) =
           (if list_all2 (<) p s then Some ((\<Sum>x\<leftarrow>rs. the (item x p)) / real (length rs))
            else None)"
proof -
  have "list_all (\<lambda>e. e \<noteq> None) (map (\<lambda>x. item x p) rs) = list_all2 (<) p s"
    using assms item_defined [of _ s p] by (cases rs) (auto simp: list_all_iff)
  with assms(1) show ?thesis
    by (simp add: arithmetic_mean_def comp_def)
qed


text \<open>\<^verbatim>\<open>np.mean\<close> along the first axis, and the means of the layers one after the other.\<close>

lemma np_mean_axis0_rows:
  assumes ne: "rs \<noteq> []" and sh: "\<forall>x\<in>set rs. shape x = Some s"
  shows "\<exists>m. np_mean_axis0 (Array rs) h =
               (Inr (allocated h) :: 'x error + nat,
                h\<lparr>cells := (cells h)(allocated h := m), allocated := Suc (allocated h)\<rparr>) \<and>
             shape m = Some s \<and>
             (\<forall>p. item m p = arithmetic_mean (map (\<lambda>x. item x p) rs))"
proof -
  from ne obtain r rs' where rs: "rs = r # rs'" by (cases rs) auto
  let ?m = "true_divide (foldl add_elementwise r rs') (real (length rs))"
  from ne sh have A: "shape (Array rs) = Some (length rs # s)"
    by (simp add: shape_Array)
  have np: "np_mean_axis0 (Array rs) h =
          (Inr (allocated h) :: 'x error + nat,
           h\<lparr>cells := (cells h)(allocated h := ?m), allocated := Suc (allocated h)\<rparr>)"
    unfolding np_mean_axis0_def A by (simp add: rs alloc_def)
  from sh rs have "shape r = Some s" and "\<forall>x\<in>set rs'. shape x = Some s" by simp_all
  note f = foldl_add_elementwise [OF this]
  from f have m_shape: "shape ?m = Some s" by (simp add: true_divide_shape)
  have "item ?m p = arithmetic_mean (map (\<lambda>x. item x p) rs)" for p
  proof -
    have "item ?m p =
            (if list_all2 (<) p s
             then Some ((\<Sum>x\<leftarrow>rs. the (item x p)) / real (length rs)) else None)"
      using f by (simp add: true_divide_item rs)
    then show ?thesis by (simp only: arithmetic_mean_rows [OF ne sh])
  qed
  with np m_shape show ?thesis by blast
qed

lemma column_rows:
  assumes "\<forall>c\<in>set cs. layer < length (rows c)"
  shows "column (Array cs) layer = Inr (Array (map (\<lambda>c. rows c ! layer) cs))"
  using assms by (simp add: column_def list_all_iff)

lemma layer_means_rows:
  assumes ne: "cs \<noteq> []" and sh: "\<forall>c\<in>set cs. shape c = Some (L # s)"
  shows "\<forall>l\<in>set ls. l < L \<Longrightarrow>
         \<exists>ms h'. layer_means (Array cs) ls h = (Inr ms :: 'x error + nat list, h') \<and>
           allocated h \<le> allocated h' \<and> (\<forall>a<allocated h. cells h' a = cells h a) \<and>
           list_all2 (\<lambda>m l. shape (cells h' m) = Some s \<and>
                      (\<forall>p. item (cells h' m) p =
                         arithmetic_mean (map (\<lambda>c. item (rows c ! l) p) cs))) ms ls"
proof (induction ls arbitrary: h)
  case Nil
  show ?case by simp
next
  case (Cons l ls)
  from Cons.prems have l: "l < L" and ls: "\<forall>l\<in>set ls. l < L" by simp_all
  let ?col = "map (\<lambda>c. rows c ! l) cs"
  from sh l have len: "\<forall>c\<in>set cs. l < length (rows c)"
    using shape_rows by blast
  then have col: "column (Array cs) l = (Inr (Array ?col) :: 'x error + ndarray)"
    by (rule column_rows)
  from ne have cne: "?col \<noteq> []" by simp
  have csh: "\<forall>x\<in>set ?col. shape x = Some s"
  proof
    fix x assume "x \<in> set ?col"
    then obtain c where c: "c \<in> set cs" and x: "x = rows c ! l" by auto
    from sh c have "shape c = Some (L # s)" by simp
    from shape_rows [OF this] l have "rows c ! l \<in> set (rows c)"
      and "\<forall>y\<in>set (rows c). shape y = Some s" by simp_all
    with x show "shape x = Some s" by simp
  qed
  from np_mean_axis0_rows [OF cne csh, of h, where ?'x = 'x]
  obtain m where np: "np_mean_axis0 (Array ?col) h =
               (Inr (allocated h) :: 'x error + nat,
                h\<lparr>cells := (cells h)(allocated h := m), allocated := Suc (allocated h)\<rparr>)"
    and msh: "shape m = Some s"
    and mit: "\<forall>p. item m p = arithmetic_mean (map (\<lambda>x. item x p) ?col)"
    by blast
  let ?h1 = "h\<lparr>cells := (cells h)(allocated h := m), allocated := Suc (allocated h)\<rparr>"
  from Cons.IH [OF ls, of ?h1]
  obtain ms h' where lm: "layer_means (Array cs) ls ?h1 = (Inr ms :: 'x error + nat list, h')"
    and t: "allocated ?h1 \<le> allocated h'"
    and fr: "\<forall>a<allocated ?h1. cells h' a = cells ?h1 a"
    and all: "list_all2 (\<lambda>m l. shape (cells h' m) = Some s \<and>
                      (\<forall>p. item (cells h' m) p =
                         arithmetic_mean (map (\<lambda>c. item (rows c ! l) p) cs))) ms ls"
    by blast
  have res: "layer_means (Array cs) (l # ls) h = (Inr (allocated h # ms) :: 'x error + nat list, h')"
    by (simp add: col np lm)
  from fr have here: "cells h' (allocated h) = m" by simp
  from fr have frame: "\<forall>a<allocated h. cells h' a = cells h a" by simp
  from t have t': "allocated h \<le> allocated h'" by simp
  from mit have mit': "\<forall>p. item m p = arithmetic_mean (map (\<lambda>c. item (rows c ! l) p) cs)"
    by (simp add: comp_def)
  from res t' frame all here msh mit' show ?case by simp
qed


lemma arithmetic_mean_None:
  assumes "es \<noteq> []" and "\<forall>e\<in>set es. e = None"
  shows "arithmetic_mean es = None"
  using assms by (cases es) (auto simp: arithmetic_mean_def)

lemma item_row:
  assumes "shape c = Some (L # s)"
  shows "item c (j # q) = (if j < L then item (rows c ! j) q else None)"
proof -
  from shape_rows [OF assms] have "c = Array (rows c)" and "length (rows c) = L" by simp_all
  then show ?thesis by (metis item.simps(4))
qed

lemma item_Nil:
  assumes "shape c = Some (L # s)"
  shows "item c [] = None"
proof -
  from shape_rows [OF assms] have "c = Array (rows c)" by simp
  then show ?thesis by (metis item.simps(3))
qed

text \<open>
  Claim C10. Let \<open>clients_params\<close> be a non-empty list of references to arrays that
  exist, all of one shape \<open>L # s\<close>: \<open>L\<close> layers, each of the shape \<open>s\<close>. Then
  \<open>aggregate_weights\<close> returns a reference \<open>r\<close> to a new array of the shape \<open>L # s\<close>, one
  sub-array for each layer, whose entry at every index \<open>p\<close> is the arithmetic mean over
  the clients of their entries at \<open>p\<close>: the entry \<open>j # q\<close> is the mean of the entries \<open>q\<close>
  of the layers \<open>j\<close>, and there is none where the clients have none. The arrays of
  the clients are in the final heap what they were in the initial one.
\<close>

theorem aggregate_weights_mean:
  assumes ne: "clients_params \<noteq> []"
    and live: "\<forall>a\<in>set clients_params. a < allocated h"
    and sh: "\<forall>a\<in>set clients_params. shape (cells h a) = Some (L # s)"
  shows "\<exists>r h'. aggregate_weights clients_params h = (Inr r :: 'x error + nat, h') \<and>
           allocated h \<le> r \<and> map (cells h') clients_params = map (cells h) clients_params \<and>
           shape (cells h' r) = Some (L # s) \<and>
           (\<forall>p. item (cells h' r) p =
              arithmetic_mean (map (\<lambda>a. item (cells h a) p) clients_params))"
proof -
  let ?vs = "map (cells h) clients_params"
  let ?h1 = "h\<lparr>cells := (cells h)(allocated h := Array ?vs), allocated := Suc (allocated h)\<rparr>"
  from ne have vne: "?vs \<noteq> []" by simp
  from sh have vsh: "\<forall>c\<in>set ?vs. shape c = Some (L # s)" by simp
  from vne vsh have A: "shape (Array ?vs) = Some (length ?vs # L # s)"
    by (simp add: shape_Array)
  have np1: "np_array clients_params h = (Inr (allocated h) :: 'x error + nat, ?h1)"
    unfolding np_array_def A by (simp add: alloc_def)
  have si: "shape_index (Array ?vs) (Suc 0) = (Inr L :: 'x error + nat)"
    using A by (simp add: shape_index_def)
  have "\<forall>l\<in>set [0..<L]. l < L" by simp
  from layer_means_rows [OF vne vsh this, of ?h1, where ?'x = 'x]
  obtain ms h2 where lm: "layer_means (Array ?vs) [0..<L] ?h1 = (Inr ms :: 'x error + nat list, h2)"
    and t: "allocated ?h1 \<le> allocated h2"
    and fr: "\<forall>a<allocated ?h1. cells h2 a = cells ?h1 a"
    and all: "list_all2 (\<lambda>m l. shape (cells h2 m) = Some s \<and>
                      (\<forall>p. item (cells h2 m) p =
                         arithmetic_mean (map (\<lambda>c. item (rows c ! l) p) ?vs))) ms [0..<L]"
    by blast
  let ?ws = "map (cells h2) ms"
  let ?h3 = "h2\<lparr>cells := (cells h2)(allocated h2 := Array ?ws), allocated := Suc (allocated h2)\<rparr>"
  from all have len: "length ms = L" by (simp add: list_all2_conv_all_nth)
  from all len have wj: "shape (?ws ! j) = Some s \<and>
      (\<forall>p. item (?ws ! j) p = arithmetic_mean (map (\<lambda>c. item (rows c ! j) p) ?vs))"
    if "j < L" for j
    using that by (simp add: list_all2_conv_all_nth)
  have wsh: "\<forall>w\<in>set ?ws. shape w = Some s"
  proof
    fix w assume "w \<in> set ?ws"
    then obtain j where "j < length ?ws" and "w = ?ws ! j"
      by (metis in_set_conv_nth)
    with wj [of j] len show "shape w = Some s" by simp
  qed
  have B: "shape (Array ?ws) = Some (L # s)"
  proof (cases "L = 0")
    case True
    from ne obtain a where a: "a \<in> set clients_params" by (cases clients_params) auto
    with sh True have "shape (cells h a) = Some (0 # s)" by simp
    then have "s = []" by (cases "cells h a") (auto simp: shape_Array)
    with True len show ?thesis by (simp add: shape_Array)
  next
    case False
    with len wsh show ?thesis by (auto simp: shape_Array)
  qed
  have np2: "np_array ms h2 = (Inr (allocated h2) :: 'x error + nat, ?h3)"
    unfolding np_array_def B by (simp add: alloc_def)
  have res: "aggregate_weights clients_params h = (Inr (allocated h2) :: 'x error + nat, ?h3)"
    unfolding aggregate_weights_def np1 by (simp add: si lm np2)
  from t have fresh: "allocated h \<le> allocated h2" by simp
  have frame: "cells ?h3 a = cells h a" if "a < allocated h" for a
    using that t fr by simp
  from live frame have input: "map (cells ?h3) clients_params = map (cells h) clients_params"
    by (intro map_cong) auto
  have it: "item (Array ?ws) p = arithmetic_mean (map (\<lambda>a. item (cells h a) p) clients_params)"
    for p
  proof (cases p)
    case Nil
    have "arithmetic_mean (map (\<lambda>a. item (cells h a) []) clients_params) = None"
      using ne sh by (intro arithmetic_mean_None) (auto simp: item_Nil)
    with Nil show ?thesis by simp
  next
    case (Cons j q)
    show ?thesis
    proof (cases "j < L")
      case True
      have "map (\<lambda>c. item (rows c ! j) q) ?vs =
              map (\<lambda>a. item (cells h a) (j # q)) clients_params"
        using sh True by (simp add: item_row)
      moreover from wj [OF True] have "item (?ws ! j) q =
              arithmetic_mean (map (\<lambda>c. item (rows c ! j) q) ?vs)"
        by (rule conjunct2 [THEN spec])
      ultimately have "item (?ws ! j) q =
              arithmetic_mean (map (\<lambda>a. item (cells h a) (j # q)) clients_params)"
        by (rule subst)
      with True len Cons show ?thesis by simp
    next
      case False
      have "arithmetic_mean (map (\<lambda>a. item (cells h a) (j # q)) clients_params) = None"
        using ne sh False by (intro arithmetic_mean_None) (auto simp: item_row)
      with False len Cons show ?thesis by simp
    qed
  qed
  show ?thesis
  proof (intro exI conjI)
    show "aggregate_weights clients_params h = (Inr (allocated h2) :: 'x error + nat, ?h3)"
      by (rule res)
    show "allocated h \<le> allocated h2" by (rule fresh)
    show "map (cells ?h3) clients_params = map (cells h) clients_params" by (rule input)
    show "shape (cells ?h3 (allocated h2)) = Some (L # s)" using B by simp
    show "\<forall>p. item (cells ?h3 (allocated h2)) p =
            arithmetic_mean (map (\<lambda>a. item (cells h a) p) clients_params)"
      using it by simp
  qed
qed


text \<open>The two clients of \<open>demo_heap\<close>: the means are \<open>2, 4\<close> in the first layer and \<open>4, 6\<close> in
  the second.\<close>

theorem aggregate_weights_mean_witness:
  "\<exists>r h'. aggregate_weights [0, 1] demo_heap = (Inr r :: unit error + nat, h') \<and>
     allocated demo_heap \<le> r \<and>
     map (cells h') [0, 1] = map (cells demo_heap) [0, 1] \<and>
     shape (cells h' r) = Some [2, 2] \<and>
     item (cells h' r) [0, 0] = Some 2 \<and> item (cells h' r) [0, 1] = Some 4 \<and>
     item (cells h' r) [1, 0] = Some 4 \<and> item (cells h' r) [1, 1] = Some 6 \<and>
     item (cells h' r) [2, 0] = None"
proof -
  have ne: "[0, 1::nat] \<noteq> []" by simp
  have live: "\<forall>a\<in>set [0, 1]. a < allocated demo_heap"
    by (simp add: demo_heap_def)
  have sh: "\<forall>a\<in>set [0, 1]. shape (cells demo_heap a) = Some [2, 2]"
    by (simp add: demo_heap_def shape.simps(2))
  from aggregate_weights_mean [OF ne live sh, where ?'x = unit]
  obtain r h' where res: "aggregate_weights [0, 1] demo_heap = (Inr r :: unit error + nat, h')"
    and fresh: "allocated demo_heap \<le> r"
    and input: "map (cells h') [0, 1] = map (cells demo_heap) [0, 1]"
    and rsh: "shape (cells h' r) = Some [2, 2]"
    and it: "\<And>p. item (cells h' r) p =
               arithmetic_mean (map (\<lambda>a. item (cells demo_heap a) p) [0, 1])"
    by blast
  have "item (cells h' r) [0, 0] = Some 2" "item (cells h' r) [0, 1] = Some 4"
    "item (cells h' r) [1, 0] = Some 4" "item (cells h' r) [1, 1] = Some 6"
    "item (cells h' r) [2, 0] = None"
    unfolding it by (simp_all add: demo_heap_def arithmetic_mean_def)
  with res fresh input rsh show ?thesis by blast
qed

text \<open>Without a client the array built first has the shape \<open>(0,)\<close>, and \<^verbatim>\<open>shape[1]\<close> raises.\<close>

lemma aggregate_weights_no_clients:
  "aggregate_weights [] h =
     (Inl IndexError, h\<lparr>cells := (cells h)(allocated h := Array []),
                       allocated := Suc (allocated h)\<rparr>)"
  by (simp add: aggregate_weights_def np_array_def alloc_def shape_index_def shape.simps(2))

end
